theory Spec2Isabelle
  imports Complex_Main "HOL-Library.Sublist"
begin

section \<open>Strings and the fixed regular expressions of the scorer\<close>

text \<open>
  A JavaScript string is modelled as a \<^typ>\<open>string\<close> whose characters are code units
  below 256 (Latin-1). The character classes \<open>\d\<close>, \<open>\w\<close> and \<open>\s\<close> and the
  case mapping are those of ECMAScript restricted to that range.
\<close>

definition isDigit :: "char \<Rightarrow> bool" where
  "isDigit c = (let n = (of_char c :: nat) in 48 \<le> n \<and> n \<le> 57)"

definition isWordChar :: "char \<Rightarrow> bool" where
  "isWordChar c =
     (let n = (of_char c :: nat)
      in (48 \<le> n \<and> n \<le> 57) \<or> (65 \<le> n \<and> n \<le> 90) \<or> n = 95 \<or> (97 \<le> n \<and> n \<le> 122))"

definition isSpace :: "char \<Rightarrow> bool" where
  "isSpace c = (let n = (of_char c :: nat) in (9 \<le> n \<and> n \<le> 13) \<or> n = 32 \<or> n = 160)"

definition toLowerChar :: "char \<Rightarrow> char" where
  "toLowerChar c =
     (let n = (of_char c :: nat)
      in if (65 \<le> n \<and> n \<le> 90) \<or> (192 \<le> n \<and> n \<le> 222 \<and> n \<noteq> 215)
         then char_of (n + 32) else c)"

definition toLowerCase :: "string \<Rightarrow> string" where
  "toLowerCase s = map toLowerChar s"

text \<open>
  \<open>/example|instance|time when|experience|project|situation/i.test(answer)\<close>: one of the
  literal alternatives occurs in the answer, letters compared without case.
\<close>

definition hasSpecificExamples :: "string \<Rightarrow> bool" where
  "hasSpecificExamples answer =
     (let a = toLowerCase answer
      in sublist ''example'' a \<or> sublist ''instance'' a \<or> sublist ''time when'' a \<or>
         sublist ''experience'' a \<or> sublist ''project'' a \<or> sublist ''situation'' a)"

text \<open>
  \<open>\d+X\<close> matches somewhere exactly when some digit is directly followed by \<open>X\<close>;
  \<open>\$\d+\<close> matches exactly when some \<open>$\<close> is directly followed by a digit.
\<close>

fun digitThen :: "string \<Rightarrow> string \<Rightarrow> bool" where
  "digitThen pat [] = False"
| "digitThen pat (c # cs) = ((isDigit c \<and> prefix pat cs) \<or> digitThen pat cs)"

fun dollarDigit :: "string \<Rightarrow> bool" where
  "dollarDigit [] = False"
| "dollarDigit [c] = False"
| "dollarDigit (c # d # cs) = ((c = CHR ''$'' \<and> isDigit d) \<or> dollarDigit (d # cs))"

text \<open>
  \<open>/\d+%|\d+ years?|\d+ people|\$\d+|increased|decreased|improved|achieved|delivered/i\<close>.
  The optional \<open>s\<close> of \<open>years?\<close> does not change whether a match exists.
\<close>

definition hasQuantifiableResults :: "string \<Rightarrow> bool" where
  "hasQuantifiableResults answer =
     (let a = toLowerCase answer
      in digitThen ''%'' a \<or> digitThen '' year'' a \<or> digitThen '' people'' a \<or> dollarDigit a \<or>
         sublist ''increased'' a \<or> sublist ''decreased'' a \<or> sublist ''improved'' a \<or>
         sublist ''achieved'' a \<or> sublist ''delivered'' a)"

text \<open>
  \<open>requirements.split(/[,\s]+/)\<close>: the pieces between maximal runs of commas and white
  space; a leading or trailing run leaves an empty first or last piece.
\<close>

definition isSep :: "char \<Rightarrow> bool" where
  "isSep c = (c = CHR '','' \<or> isSpace c)"

fun splitSep :: "bool \<Rightarrow> string \<Rightarrow> string \<Rightarrow> string list" where
  "splitSep inSep cur [] = [cur]"
| "splitSep inSep cur (c # cs) =
     (if isSep c then (if inSep then splitSep True cur cs else cur # splitSep True [] cs)
      else splitSep False (cur @ [c]) cs)"

fun joinWith :: "string \<Rightarrow> string list \<Rightarrow> string" where
  "joinWith sep [] = []"
| "joinWith sep [x] = x"
| "joinWith sep (x # y # ys) = x @ sep @ joinWith sep (y # ys)"

definition relevantPattern :: "string \<Rightarrow> string" where
  "relevantPattern requirements = joinWith ''|'' (take 5 (splitSep False [] requirements))"

text \<open>
  \<open>answer.toLowerCase().match(/\b\w{4,}\b/g) || []\<close>: the maximal runs of word
  characters of the lowered answer, in order, that have at least four characters.
\<close>

fun wordRuns :: "string \<Rightarrow> string \<Rightarrow> string list" where
  "wordRuns cur [] = (if cur = [] then [] else [cur])"
| "wordRuns cur (c # cs) =
     (if isWordChar c then wordRuns (cur @ [c]) cs
      else (if cur = [] then [] else [cur]) @ wordRuns [] cs)"

definition matchWords4 :: "string \<Rightarrow> string list" where
  "matchWords4 s = filter (\<lambda>w. 4 \<le> length w) (wordRuns [] s)"

text \<open>\<open>[...new Set(keywords)]\<close>: the first occurrence of every element, in insertion order.\<close>

fun setInsertAll :: "'a list \<Rightarrow> 'a list \<Rightarrow> 'a list" where
  "setInsertAll seen [] = seen"
| "setInsertAll seen (x # xs) = setInsertAll (if x \<in> set seen then seen else seen @ [x]) xs"

definition uniqueOf :: "'a list \<Rightarrow> 'a list" where
  "uniqueOf xs = setInsertAll [] xs"

section \<open>Data model of the interview hook\<close>

text \<open>
  The type declarations of the repository (\<open>../types\<close>) are not part of the sources; the
  records below carry the fields the hook reads and writes.
\<close>

record job_description =
  title :: string
  company :: string
  jd_type :: string
  level :: string
  requirements :: "string option"

record student_info =
  name :: string
  userId :: "string option"

record question =
  q_id :: string
  q_text :: string
  q_type :: string
  timeLimit :: nat
  difficulty :: string
  department :: string
  category :: string

record response =
  questionId :: string
  answer :: string
  audioBlob :: "nat option"
  duration :: real
  confidence :: int
  clarity :: int
  emotionalTone :: "string option"
  r_keywords :: "string list"
  relevanceScore :: int

datatype js_error = SyntaxError | TypeError | InvalidStateError | CameraFailure string

definition emotionalTones :: "string list" where
  "emotionalTones = [''confident'', ''nervous'', ''enthusiastic'', ''calm'', ''passionate'']"

text \<open>
  Lines 244-291 of \<open>submitResponse\<close>: the response built from an answer. \<open>rx p a\<close> is the
  host's \<open>new RegExp(p, 'i').test(a)\<close>, \<open>None\<close> when the constructor throws a
  SyntaxError; \<open>r1\<close>, \<open>r2\<close>, \<open>r3\<close> are the three values of \<open>Math.random()\<close>.
  A requirements string that is absent or empty is falsy.
\<close>

definition makeResponse ::
  "(string \<Rightarrow> string \<Rightarrow> bool option) \<Rightarrow> real \<Rightarrow> real \<Rightarrow> real \<Rightarrow> job_description \<Rightarrow>
   string \<Rightarrow> string \<Rightarrow> real \<Rightarrow> nat option \<Rightarrow> js_error + response" where
  "makeResponse rx r1 r2 r3 jd qid ans dur blob =
     (let responseLength = int (length ans);
          hasExamples = hasSpecificExamples ans;
          hasResults = hasQuantifiableResults ans;
          relevant =
            (case requirements jd of
               None \<Rightarrow> Some False
             | Some req \<Rightarrow> if req = [] then Some False else rx (relevantPattern req) ans)
      in case relevant of
           None \<Rightarrow> Inl SyntaxError
         | Some hasRelevantKeywords \<Rightarrow>
             (let kws = matchWords4 (toLowerCase ans);
                  uniqueKeywords = uniqueOf kws;
                  confidence0 = \<lfloor>r1 * 20\<rfloor> + 70;
                  clarity0 = \<lfloor>r2 * 20\<rfloor> + 75;
                  relevance0 = (60 :: int);
                  confidence1 = (if responseLength > 100 then confidence0 + 5 else confidence0);
                  confidence2 = (if responseLength > 200 then confidence1 + 5 else confidence1);
                  confidence3 = (if hasExamples then confidence2 + 10 else confidence2);
                  relevance1 = (if hasExamples then relevance0 + 15 else relevance0);
                  confidence4 = (if hasResults then confidence3 + 8 else confidence3);
                  relevance2 = (if hasResults then relevance1 + 10 else relevance1);
                  confidence5 = (if hasRelevantKeywords then confidence4 + 7 else confidence4);
                  relevance3 = (if hasRelevantKeywords then relevance2 + 12 else relevance2);
                  clarity1 = (if dur > 30 \<and> dur < 180 then clarity0 + 5 else clarity0);
                  clarity2 = (if length uniqueKeywords > 10 then clarity1 + 5 else clarity1);
                  toneIndex = \<lfloor>r3 * real (length emotionalTones)\<rfloor>
              in Inr \<lparr> questionId = qid,
                       answer = ans,
                       audioBlob = blob,
                       duration = dur,
                       confidence = min 100 confidence5,
                       clarity = min 100 clarity2,
                       emotionalTone =
                         (if 0 \<le> toneIndex \<and> toneIndex < int (length emotionalTones)
                          then Some (emotionalTones ! nat toneIndex) else None),
                       r_keywords = take 10 uniqueKeywords,
                       relevanceScore = min 100 relevance3 \<rparr>))"

section \<open>Question acquisition\<close>

text \<open>Decimal rendering of numbers inside template strings.\<close>

fun showNat :: "nat \<Rightarrow> string" where
  "showNat n = (if n < 10 then [char_of (48 + n)] else showNat (n div 10) @ [char_of (48 + n mod 10)])"

declare showNat.simps [simp del]

definition showInt :: "int \<Rightarrow> string" where
  "showInt i = (if i < 0 then CHR ''-'' # showNat (nat (- i)) else showNat (nat i))"

definition trim :: "string \<Rightarrow> string" where
  "trim s = rev (dropWhile isSpace (rev (dropWhile isSpace s)))"

text \<open>
  \<open>jobDescription.requirements?.split(',')[0] || 'relevant technologies'\<close>: the text before
  the first comma, replaced by the default when requirements are absent or that text is empty.
\<close>

definition firstRequirement :: "job_description \<Rightarrow> string" where
  "firstRequirement jd =
     (case requirements jd of
        None \<Rightarrow> ''relevant technologies''
      | Some req \<Rightarrow>
          (let h = takeWhile (\<lambda>c. c \<noteq> CHR '','') req
           in if h = [] then ''relevant technologies'' else h))"

definition questionType :: "job_description \<Rightarrow> string" where
  "questionType jd = (if jd_type jd = ''technical'' then ''technical'' else ''behavioral'')"

definition fallbackTexts :: "job_description \<Rightarrow> string list" where
  "fallbackTexts jd =
     (if jd_type jd = ''technical'' then
        [''Tell me about your experience with '' @ firstRequirement jd @ ''.'',
         ''How would you approach solving a complex problem in '' @ title jd @ ''?'',
         ''Describe a challenging project you've worked on related to '' @ company jd @ '''s domain.'',
         ''What interests you most about working at '' @ company jd @ ''?'',
         ''How do you stay updated with the latest trends in your field?'',
         ''Walk me through your problem-solving process for technical challenges.'']
      else
        [''Tell me about yourself and why you're interested in the '' @ title jd @
           '' position at '' @ company jd @ ''.'',
         ''Describe a time when you had to work under pressure. How did you handle it?'',
         ''What do you know about '' @ company jd @ '' and why do you want to work here?'',
         ''Tell me about a time when you had to work with a difficult team member.'',
         ''Where do you see yourself in 5 years?'',
         ''What are your greatest strengths and how do they relate to this role?''])"

definition generateFallbackQuestions :: "job_description \<Rightarrow> question list" where
  "generateFallbackQuestions jd =
     map (\<lambda>(text, index).
            \<lparr> q_id = ''fallback-'' @ showNat index,
              q_text = text,
              q_type = questionType jd,
              timeLimit = 120,
              difficulty = ''medium'',
              department = ''general'',
              category = ''general'' \<rparr>)
         (zip (fallbackTexts jd) [0 ..< length (fallbackTexts jd)])"

text \<open>
  What the remote endpoint does is an input: the \<open>fetch\<close> promise rejects
  (\<open>NetworkError\<close>), the body is not JSON (\<open>InvalidJson\<close>), or a reply arrives with its
  \<open>ok\<close> flag, its optional \<open>error\<close> text and its optional \<open>questions\<close> array.
  The strings are the messages of the thrown errors.
\<close>

datatype backend_reply =
  NetworkError string
| InvalidJson string
| Reply bool "string option" "string list option"

text \<open>
  \<open>generateQuestionsFromBackend\<close> of \<open>useInterview.ts\<close>. \<open>storageOk\<close> says whether the two
  \<open>JSON.parse\<close> calls on the local storage succeed; \<open>now\<close> is \<open>Date.now()\<close>. Every
  exception inside the \<open>try\<close> block ends in the \<open>catch\<close> branch.
\<close>

definition generateQuestionsFromBackend ::
  "bool \<Rightarrow> backend_reply \<Rightarrow> int \<Rightarrow> job_description \<Rightarrow> question list" where
  "generateQuestionsFromBackend storageOk reply now jd =
     (if \<not> storageOk then generateFallbackQuestions jd
      else case reply of
        NetworkError m \<Rightarrow> generateFallbackQuestions jd
      | InvalidJson m \<Rightarrow> generateFallbackQuestions jd
      | Reply ok err qs \<Rightarrow>
          if \<not> ok then generateFallbackQuestions jd
          else (case qs of
                  None \<Rightarrow> generateFallbackQuestions jd
                | Some texts \<Rightarrow>
                    map (\<lambda>(text, index).
                           \<lparr> q_id = ''q-'' @ showInt now @ ''-'' @ showNat index,
                             q_text = trim text,
                             q_type = questionType jd,
                             timeLimit = 120,
                             difficulty = (if level jd = ''entry'' then ''easy''
                                           else if level jd = ''senior'' then ''hard'' else ''medium''),
                             department = ''general'',
                             category = (if jd_type jd = ''technical'' then ''technical-skills''
                                         else ''general'') \<rparr>)
                        (zip texts [0 ..< length texts])))"

text \<open>
  \<open>generateQuestions\<close> of the hook \<open>useGeneratedQuestions\<close> (\<open>jd_gen_ques.ts\<close>): its state
  and its return value. \<open>typeErrorMessage\<close> is the host's message for calling \<open>map\<close> on
  \<open>undefined\<close>. An empty message is falsy.
\<close>

record generated_questions =
  gq_questions :: "question list"
  gq_loading :: bool
  gq_error :: "string option"

definition orElse :: "string \<Rightarrow> string \<Rightarrow> string" where
  "orElse s d = (if s = [] then d else s)"

definition generateQuestions ::
  "string \<Rightarrow> backend_reply \<Rightarrow> int \<Rightarrow> string \<Rightarrow> generated_questions \<Rightarrow>
   question list \<times> generated_questions" where
  "generateQuestions typeErrorMessage reply now jobDescriptionText st =
     (let failed = (\<lambda>m. ([], st\<lparr> gq_loading := False, gq_error := Some (orElse m ''Unknown error'') \<rparr>))
      in case reply of
        NetworkError m \<Rightarrow> failed m
      | InvalidJson m \<Rightarrow> failed m
      | Reply ok err qs \<Rightarrow>
          if \<not> ok
          then failed (case err of None \<Rightarrow> ''Failed to generate questions''
                                 | Some e \<Rightarrow> orElse e ''Failed to generate questions'')
          else (case qs of
                  None \<Rightarrow> failed typeErrorMessage
                | Some texts \<Rightarrow>
                    (let generated =
                           map (\<lambda>(text, idx).
                                  \<lparr> q_id = ''q-'' @ showInt now @ ''-'' @ showNat idx,
                                    q_text = text,
                                    q_type = ''technical'',
                                    timeLimit = 120,
                                    difficulty = ''medium'',
                                    department = ''general'',
                                    category = ''general'' \<rparr>)
                               (zip texts [0 ..< length texts])
                     in (generated, st\<lparr> gq_questions := generated, gq_loading := False,
                                          gq_error := None \<rparr>))))"

section \<open>The interview session and the state of the hook\<close>

datatype session_status = InProgress | Stopped | Completed

text \<open>
  A JavaScript number that may be \<open>Infinity\<close>: the completion rate divides by the number
  of questions, which can be zero. Finite numbers are exact reals here, not IEEE doubles.
\<close>

datatype jsnum = Finite real | Infinity

record category_scores =
  communication :: int
  technical :: int
  cs_confidence :: int
  cs_clarity :: int
  emotionalIntelligence :: int

record detailed_analysis =
  responseQuality :: int
  technicalAccuracy :: int
  communicationSkills :: int
  problemSolvingAbility :: int

record interview_result =
  overallScore :: jsnum
  categoryScores :: category_scores
  res_responses :: "response list"
  feedback :: "string list"
  recommendations :: "string list"
  strengths :: "string list"
  areasForImprovement :: "string list"
  interviewDuration :: int
  completionRate :: jsnum
  detailedAnalysis :: detailed_analysis

record interview_session =
  s_id :: string
  s_userId :: string
  jobDescription :: job_description
  studentInfo :: student_info
  questions :: "question list"
  responses :: "response list"
  result :: "interview_result option"
  status :: session_status
  createdAt :: string
  completedAt :: "string option"
  s_duration :: int
  s_currentQuestionIndex :: nat

record ai_bot =
  isListening :: bool
  isSpeaking :: bool
  currentEmotion :: string
  message :: string
  isWaitingForResponse :: bool

datatype recorder_state = RecInactive | RecRecording

text \<open>
  The state of \<open>useInterview\<close>: its five \<open>useState\<close> cells and its refs. The
  MediaRecorder and SpeechRecognition objects created so far are kept in two lists, and a
  ref holds the index of the object it points to. \<open>storedInterviews\<close> is the array under
  the local-storage key \<open>interviews\<close>. \<open>pendingMic\<close> counts the calls of
  \<open>startListening\<close> that are still waiting for \<open>getUserMedia\<close>.

  A value of this type is also what a render of the hook shows to the callbacks it
  creates. The callbacks \<open>submitResponse\<close>, \<open>nextQuestion\<close>, \<open>stopInterview\<close>,
  \<open>completeInterview\<close> and \<open>stopListening\<close> close over state cells of the render
  that created them; below they take that render as \<open>snap\<close> and the state at the time
  of the call as \<open>st\<close>. What they read from a cell they read from \<open>snap\<close>; the refs
  and the local storage they read from \<open>st\<close>; what they set they set in \<open>st\<close>.
\<close>

record hook_state =
  currentSession :: "interview_session option"
  currentQuestionIndex :: nat
  aiBot :: ai_bot
  isRecording :: bool
  interviewStartTime :: int
  recorders :: "recorder_state list"
  mediaRecorderRef :: "nat option"
  recognitions :: "bool list"
  speechRecognitionRef :: "nat option"
  storedInterviews :: "interview_session list"
  pendingMic :: nat

text \<open>
  What the browser window offers: \<open>'speechSynthesis' in window\<close> and a
  SpeechRecognition constructor.
\<close>

record window =
  speechSynthesis :: bool
  speechRecognition :: bool

definition initialState :: hook_state where
  "initialState =
     \<lparr> currentSession = None,
       currentQuestionIndex = 0,
       aiBot = \<lparr> isListening = False, isSpeaking = False, currentEmotion = ''neutral'',
                 message = ''Hello! I'm your AI interviewer. Ready to begin?'',
                 isWaitingForResponse = False \<rparr>,
       isRecording = False,
       interviewStartTime = 0,
       recorders = [],
       mediaRecorderRef = None,
       recognitions = [],
       speechRecognitionRef = None,
       storedInterviews = [],
       pendingMic = 0 \<rparr>"

definition speak :: "window \<Rightarrow> string \<Rightarrow> hook_state \<Rightarrow> hook_state" where
  "speak w text st =
     (if speechSynthesis w
      then st\<lparr> aiBot := (aiBot st)\<lparr> isSpeaking := True, message := text,
                                      isWaitingForResponse := False \<rparr> \<rparr>
      else st)"

text \<open>The \<open>onend\<close> handler of an utterance.\<close>

definition utteranceEnd :: "hook_state \<Rightarrow> hook_state" where
  "utteranceEnd st = st\<lparr> aiBot := (aiBot st)\<lparr> isSpeaking := False, isWaitingForResponse := True \<rparr> \<rparr>"

text \<open>
  \<open>startInterview\<close>, from the moment its request for questions has settled: until then
  it changes nothing, and it reads no state cell. \<open>sid\<close> is the random session id and
  \<open>stamp\<close> the ISO time stamp; the greeting is spoken by a timer one second later, which
  is a later \<open>speak\<close>.
\<close>

definition startInterview ::
  "bool \<Rightarrow> backend_reply \<Rightarrow> int \<Rightarrow> string \<Rightarrow> string \<Rightarrow> student_info \<Rightarrow> job_description \<Rightarrow>
   hook_state \<Rightarrow> interview_session \<times> hook_state" where
  "startInterview storageOk reply now stamp sid info jd st =
     (let qs = generateQuestionsFromBackend storageOk reply now jd;
          session =
            \<lparr> s_id = sid,
              s_userId = (case userId info of None \<Rightarrow> ''current-user''
                                           | Some u \<Rightarrow> orElse u ''current-user''),
              jobDescription = jd,
              studentInfo = info,
              questions = qs,
              responses = [],
              result = None,
              status = InProgress,
              createdAt = stamp,
              completedAt = None,
              s_duration = 0,
              s_currentQuestionIndex = 0 \<rparr>
      in (session, st\<lparr> currentSession := Some session, currentQuestionIndex := 0,
                        interviewStartTime := now \<rparr>))"

text \<open>
  \<open>submitResponse\<close>: nothing happens when the render had no session; a SyntaxError of
  the RegExp constructor leaves the state as it was; otherwise the session of the render,
  with the response appended, becomes the current session.
\<close>

definition submitResponse ::
  "(string \<Rightarrow> string \<Rightarrow> bool option) \<Rightarrow> real \<Rightarrow> real \<Rightarrow> real \<Rightarrow>
   string \<Rightarrow> string \<Rightarrow> real \<Rightarrow> nat option \<Rightarrow> hook_state \<Rightarrow> hook_state \<Rightarrow>
   js_error + hook_state" where
  "submitResponse rx r1 r2 r3 qid ans dur blob snap st =
     (case currentSession snap of
        None \<Rightarrow> Inr st
      | Some cur \<Rightarrow>
          (case makeResponse rx r1 r2 r3 (jobDescription cur) qid ans dur blob of
             Inl e \<Rightarrow> Inl e
           | Inr resp \<Rightarrow>
               Inr (st\<lparr> currentSession := Some (cur\<lparr> responses := responses cur @ [resp] \<rparr>) \<rparr>)))"

text \<open>\<open>nextQuestion\<close>; the next question is spoken by a timer two seconds later.\<close>

definition nextQuestion :: "hook_state \<Rightarrow> hook_state \<Rightarrow> bool \<times> hook_state" where
  "nextQuestion snap st =
     (case currentSession snap of
        None \<Rightarrow> (False, st)
      | Some cur \<Rightarrow>
          if int (currentQuestionIndex snap) < int (length (questions cur)) - 1
          then (True, st\<lparr> currentQuestionIndex := currentQuestionIndex snap + 1 \<rparr>)
          else (False, st))"

text \<open>
  \<open>stopInterview\<close>: the session of the render, marked stopped, becomes the current
  session.
\<close>

definition stopInterview ::
  "window \<Rightarrow> int \<Rightarrow> string \<Rightarrow> hook_state \<Rightarrow> hook_state \<Rightarrow>
   interview_session option \<times> hook_state" where
  "stopInterview w now stamp snap st =
     (case currentSession snap of
        None \<Rightarrow> (None, st)
      | Some cur \<Rightarrow>
          (let stoppedSession =
                 cur\<lparr> status := Stopped,
                      s_duration := (now - interviewStartTime snap) div 1000,
                      completedAt := Some stamp \<rparr>
           in (Some stoppedSession,
               speak w ''Interview stopped. Thank you for your time. You can review your responses and continue later if needed.''
                 (st\<lparr> currentSession := Some stoppedSession \<rparr>))))"

definition showJsnum :: "jsnum \<Rightarrow> string" where
  "showJsnum x = (case x of Finite v \<Rightarrow> showInt \<lfloor>v\<rfloor> | Infinity \<Rightarrow> ''Infinity'')"

text \<open>
  The result computed by \<open>completeInterview\<close> from the session. \<open>r1\<close> is the random
  value of the technical score of a non-technical interview and \<open>r2\<close> the one of the
  emotional-intelligence score. A relevance score of 0 is falsy and counts as 70.
\<close>

definition buildResult :: "int \<Rightarrow> real \<Rightarrow> real \<Rightarrow> interview_session \<Rightarrow> interview_result" where
  "buildResult duration' r1 r2 cur =
     (let rs = responses cur;
          jd = jobDescription cur;
          avgConfidence = real_of_int (foldl (\<lambda>sum r. sum + confidence r) 0 rs) / real (length rs);
          avgClarity = real_of_int (foldl (\<lambda>sum r. sum + clarity r) 0 rs) / real (length rs);
          avgRelevance =
            real_of_int (foldl (\<lambda>sum r. sum + (if relevanceScore r = 0 then 70 else relevanceScore r)) 0 rs)
              / real (length rs);
          rate = (if length (questions cur) = 0 then Infinity
                  else Finite (real (length rs) / real (length (questions cur)) * 100));
          technicalScore =
            (if jd_type jd = ''technical'' then \<lfloor>avgConfidence * 0.7 + avgRelevance * 0.3\<rfloor>
             else \<lfloor>r1 * 20\<rfloor> + 75);
          communicationScore = \<lfloor>avgClarity * 0.8 + avgConfidence * 0.2\<rfloor>;
          overall =
            (case rate of
               Infinity \<Rightarrow> Infinity
             | Finite c \<Rightarrow> Finite (of_int \<lfloor>(avgConfidence + avgClarity + avgRelevance + c) / 4\<rfloor>))
      in \<lparr> overallScore = overall,
           categoryScores =
             \<lparr> communication = communicationScore,
               technical = technicalScore,
               cs_confidence = \<lfloor>avgConfidence\<rfloor>,
               cs_clarity = \<lfloor>avgClarity\<rfloor>,
               emotionalIntelligence = \<lfloor>r2 * 25\<rfloor> + 70 \<rparr>,
           res_responses = rs,
           feedback =
             [''Your responses demonstrated good structure and thoughtfulness.'',
              ''You maintained professional composure throughout the interview.'',
              (if avgRelevance > 80 then ''Your examples were highly relevant and well-articulated.''
               else ''Your examples were relevant and well-articulated.''),
              (if jd_type jd = ''technical'' then ''Your technical knowledge appears solid for this role.''
               else ''Consider providing more quantified achievements in future interviews.'')],
           recommendations =
             [''Practice the STAR method for behavioral questions'',
              ''Research more about '' @ company jd @ '''s recent developments'',
              (if avgClarity < 80 then ''Work on reducing filler words for clearer communication''
               else ''Continue maintaining clear communication''),
              (if jd_type jd = ''technical''
               then ''Continue building hands-on experience with relevant technologies''
               else ''Prepare more specific examples of your achievements'')],
           strengths =
             [''Clear and articulate communication'',
              ''Professional demeanor and confidence'',
              (if avgRelevance > 75 then ''Excellent use of relevant examples''
               else ''Good use of relevant examples''),
              (if jd_type jd = ''technical'' then ''Strong technical knowledge demonstration''
               else ''Strong understanding of role requirements'')],
           areasForImprovement =
             [(if avgRelevance < 70 then ''Provide more specific and relevant examples''
               else ''Could provide more quantified results''),
              ''Body language and eye contact'',
              (if jd_type jd = ''technical'' then ''Explaining complex concepts more simply''
               else ''Elaborating on leadership experiences''),
              ''Asking more insightful questions about the role''],
           interviewDuration = duration',
           completionRate = rate,
           detailedAnalysis =
             \<lparr> responseQuality = \<lfloor>avgRelevance\<rfloor>,
               technicalAccuracy = technicalScore,
               communicationSkills = communicationScore,
               problemSolvingAbility = \<lfloor>avgConfidence * 0.8 + avgRelevance * 0.2\<rfloor> \<rparr> \<rparr>)"

text \<open>
  \<open>completeInterview\<close>: nothing happens when the render had no session or a session
  without a response; otherwise the session of the render, with the result and the status
  completed, becomes the current session, is appended to the stored interviews, and the
  score is spoken. The stored interviews are taken to be the well-formed JSON array that
  this code writes.
\<close>

definition completeInterview ::
  "window \<Rightarrow> int \<Rightarrow> string \<Rightarrow> real \<Rightarrow> real \<Rightarrow> hook_state \<Rightarrow> hook_state \<Rightarrow>
   interview_result option \<times> hook_state" where
  "completeInterview w now stamp r1 r2 snap st =
     (case currentSession snap of
        None \<Rightarrow> (None, st)
      | Some cur \<Rightarrow>
          if length (responses cur) = 0 then (None, st)
          else
            (let duration' = (now - interviewStartTime snap) div 1000;
                 res = buildResult duration' r1 r2 cur;
                 completedSession =
                   cur\<lparr> result := Some res, status := Completed, s_duration := duration',
                        completedAt := Some stamp \<rparr>
             in (Some res,
                 speak w (''Excellent! We've completed the interview. You scored '' @
                          showJsnum (overallScore res) @
                          '' out of 100. I'll now prepare your detailed feedback report. Thank you for your time!'')
                   (st\<lparr> currentSession := Some completedSession,
                        storedInterviews := storedInterviews st @ [completedSession] \<rparr>))))"

section \<open>Listening: the audio recorder of the hook\<close>

text \<open>
  \<open>startListening\<close> is asynchronous: a call first awaits \<open>getUserMedia\<close> and changes
  nothing until that settles, so further calls and events can come in between.
\<close>

definition startListening :: "hook_state \<Rightarrow> hook_state" where
  "startListening st = st\<lparr> pendingMic := pendingMic st + 1 \<rparr>"

text \<open>
  The rest of \<open>startListening\<close>, run when the \<open>getUserMedia\<close> of a waiting call
  settles. \<open>micOk\<close> says whether it resolves; when it rejects the \<open>catch\<close> branch only
  reports. Otherwise a new MediaRecorder is created, stored in the ref and started,
  whatever the ref held before, and \<open>isRecording\<close> is set. It reads no state cell. When
  no call is waiting there is nothing to settle. The recorded chunks are not modelled.
\<close>

definition startListeningResumed :: "window \<Rightarrow> bool \<Rightarrow> hook_state \<Rightarrow> hook_state" where
  "startListeningResumed w micOk st =
     (if pendingMic st = 0 then st
      else if \<not> micOk then st\<lparr> pendingMic := pendingMic st - 1 \<rparr>
      else
        (let st1 = st\<lparr> pendingMic := pendingMic st - 1,
                        recorders := recorders st @ [RecRecording],
                        mediaRecorderRef := Some (length (recorders st)),
                        isRecording := True,
                        aiBot := (aiBot st)\<lparr> isListening := True, currentEmotion := ''thinking'',
                                              isWaitingForResponse := False \<rparr> \<rparr>
         in if speechRecognition w
            then st1\<lparr> recognitions := recognitions st @ [True],
                       speechRecognitionRef := Some (length (recognitions st)) \<rparr>
            else st1))"

text \<open>
  \<open>stopListening\<close>: it tests the ref as it is now and \<open>isRecording\<close> as the render
  had it. \<open>stop()\<close> on a recorder that is not recording throws an InvalidStateError in
  the browser.
\<close>

definition stopListening :: "hook_state \<Rightarrow> hook_state \<Rightarrow> js_error + hook_state" where
  "stopListening snap st =
     (case mediaRecorderRef st of
        None \<Rightarrow> Inr st
      | Some i \<Rightarrow>
          if \<not> isRecording snap then Inr st
          else if i < length (recorders st) \<and> recorders st ! i = RecRecording
          then Inr (st\<lparr> recorders := (recorders st)[i := RecInactive],
                        isRecording := False,
                        aiBot := (aiBot st)\<lparr> isListening := False, currentEmotion := ''happy'',
                                              isWaitingForResponse := False \<rparr>,
                        recognitions := (case speechRecognitionRef st of
                                           None \<Rightarrow> recognitions st
                                         | Some j \<Rightarrow> (recognitions st)[j := False]),
                        speechRecognitionRef := None \<rparr>)
          else Inl InvalidStateError)"

text \<open>The \<open>onresult\<close> handler of the recognition, with the final transcript it collected.\<close>

definition recognitionResult :: "string \<Rightarrow> hook_state \<Rightarrow> hook_state" where
  "recognitionResult finalTranscript st =
     (if finalTranscript = [] then st
      else st\<lparr> aiBot := (aiBot st)\<lparr> message :=
                  ''I heard: \"'' @ finalTranscript @ ''\". Please continue or click stop when finished.'' \<rparr> \<rparr>)"

text \<open>The timer started by the \<open>onstop\<close> handler of a stopped recorder.\<close>

definition recorderStopped :: "hook_state \<Rightarrow> hook_state" where
  "recorderStopped st =
     st\<lparr> aiBot := (aiBot st)\<lparr> message :=
            ''Great response! I'm analyzing your answer. Let's move to the next question.'',
          currentEmotion := ''happy'' \<rparr> \<rparr>"

definition recordingCount :: "hook_state \<Rightarrow> nat" where
  "recordingCount st = length (filter (\<lambda>r. r = RecRecording) (recorders st))"

section \<open>Traces of the hook\<close>

text \<open>
  The calls and events a component can deliver to the hook, each with the inputs the
  environment supplies. \<open>MicrophoneSettles\<close> is the settling of the \<open>getUserMedia\<close> of
  a waiting \<open>startListening\<close>. A step takes the render whose callback is called and the
  state at the time of the call. A call that throws leaves the state as it was.
\<close>

datatype op =
  StartInterview bool backend_reply int string string student_info job_description
| SubmitResponse "string \<Rightarrow> string \<Rightarrow> bool option" real real real string string real "nat option"
| NextQuestion
| StopInterview int string
| CompleteInterview int string real real
| Speak string
| UtteranceEnd
| StartListening
| MicrophoneSettles bool
| StopListening
| RecognitionResult string
| RecorderStopped

fun step :: "window \<Rightarrow> hook_state \<Rightarrow> hook_state \<Rightarrow> op \<Rightarrow> hook_state" where
  "step w snap st (StartInterview storageOk reply now stamp sid info jd) =
     snd (startInterview storageOk reply now stamp sid info jd st)"
| "step w snap st (SubmitResponse rx r1 r2 r3 qid ans dur blob) =
     (case submitResponse rx r1 r2 r3 qid ans dur blob snap st of Inl e \<Rightarrow> st | Inr st' \<Rightarrow> st')"
| "step w snap st NextQuestion = snd (nextQuestion snap st)"
| "step w snap st (StopInterview now stamp) = snd (stopInterview w now stamp snap st)"
| "step w snap st (CompleteInterview now stamp r1 r2) =
     snd (completeInterview w now stamp r1 r2 snap st)"
| "step w snap st (Speak text) = speak w text st"
| "step w snap st UtteranceEnd = utteranceEnd st"
| "step w snap st StartListening = startListening st"
| "step w snap st (MicrophoneSettles micOk) = startListeningResumed w micOk st"
| "step w snap st StopListening = (case stopListening snap st of Inl e \<Rightarrow> st | Inr st' \<Rightarrow> st')"
| "step w snap st (RecognitionResult t) = recognitionResult t st"
| "step w snap st RecorderStopped = recorderStopped st"

text \<open>
  A run in which every call goes through the callback of the latest render, which has
  seen the current state.
\<close>

fun run :: "window \<Rightarrow> hook_state \<Rightarrow> op list \<Rightarrow> hook_state" where
  "run w st [] = st"
| "run w st (x # xs) = run w (step w st st x) xs"

text \<open>
  A run in general. The history lists the states reached so far, the current one last,
  and a call \<open>(k, x)\<close> goes through the callback that the render of state number \<open>k\<close>
  created (of the current state, when there is no such number): a callback kept by a
  timer, resumed after an \<open>await\<close>, or called after another one in the same handler is
  one of an earlier render. Not every state need have been rendered; the histories
  include all that React can produce.
\<close>

definition renderOf :: "hook_state list \<Rightarrow> nat \<Rightarrow> hook_state" where
  "renderOf hist k = (if k < length hist then hist ! k else last hist)"

fun runCalls :: "window \<Rightarrow> hook_state list \<Rightarrow> (nat \<times> op) list \<Rightarrow> hook_state list" where
  "runCalls w hist [] = hist"
| "runCalls w hist ((k, x) # cs) =
     runCalls w (hist @ [step w (renderOf hist k) (last hist) x]) cs"

definition sessionStatus :: "hook_state \<Rightarrow> session_status option" where
  "sessionStatus st = map_option status (currentSession st)"

definition sessionResult :: "hook_state \<Rightarrow> interview_result option" where
  "sessionResult st = (case currentSession st of None \<Rightarrow> None | Some cur \<Rightarrow> result cur)"

definition sessionResponses :: "hook_state \<Rightarrow> response list" where
  "sessionResponses st = (case currentSession st of None \<Rightarrow> [] | Some cur \<Rightarrow> responses cur)"

text \<open>The calls that leave the current session object in place (all but \<open>startInterview\<close>).\<close>

fun keepsSession :: "op \<Rightarrow> bool" where
  "keepsSession (StartInterview storageOk reply now stamp sid info jd) = False"
| "keepsSession x = True"

text \<open>
  How many steps of a run through the latest callbacks change the result field of the
  current session.
\<close>

fun resultAssignments :: "window \<Rightarrow> hook_state \<Rightarrow> op list \<Rightarrow> nat" where
  "resultAssignments w st [] = 0"
| "resultAssignments w st (x # xs) =
     (if sessionResult (step w st st x) \<noteq> sessionResult st then 1 else 0) +
     resultAssignments w (step w st st x) xs"

section \<open>The camera hook: face detection\<close>

text \<open>
  The pixel data of a canvas is the flat RGBA array of \<open>getImageData\<close>, four numbers
  (each a byte value) per pixel. A read past the end of the array yields \<open>undefined\<close>.
\<close>

definition readAt :: "int list \<Rightarrow> nat \<Rightarrow> int option" where
  "readAt xs i = (if i < length xs then Some (xs ! i) else None)"

definition skinTone :: "int \<Rightarrow> int \<Rightarrow> int \<Rightarrow> bool" where
  "skinTone r g b =
     (r > 95 \<and> g > 40 \<and> b > 20 \<and>
      max r (max g b) - min r (min g b) > 15 \<and>
      \<bar>r - g\<bar> > 15 \<and> r > g \<and> r > b)"

text \<open>The test of one loop iteration; a comparison with \<open>undefined\<close> is false.\<close>

definition skinAt :: "int list \<Rightarrow> nat \<Rightarrow> bool" where
  "skinAt xs i =
     (case (readAt xs i, readAt xs (i + 1), readAt xs (i + 2)) of
        (Some r, Some g, Some b) \<Rightarrow> skinTone r g b
      | _ \<Rightarrow> False)"

text \<open>The loop \<open>for (let i = 0; i < data.length; i += 4)\<close> with its counter.\<close>

function countSkin :: "int list \<Rightarrow> nat \<Rightarrow> nat \<Rightarrow> nat" where
  "countSkin xs i skinPixels =
     (if i < length xs
      then countSkin xs (i + 4) (if skinAt xs i then skinPixels + 1 else skinPixels)
      else skinPixels)"
  by pat_completeness auto
termination
  by (relation "measure (\<lambda>(xs, i, skinPixels). length xs - i)") auto

declare countSkin.simps [simp del]

text \<open>
  The ratio is an exact real. The two counts are integers far below \<open>2^52\<close>, where the
  rounded quotient of doubles compares with 0.02 as the exact quotient does.
\<close>

definition skinRatio :: "int list \<Rightarrow> real" where
  "skinRatio xs = real (countSkin xs 0 0) / (real (length xs) / 4)"

definition facePresentIn :: "int list \<Rightarrow> bool" where
  "facePresentIn xs = (skinRatio xs > 0.02)"

record video_element =
  videoWidth :: nat
  videoHeight :: nat
  frame :: "int list"

record canvas_element =
  hasContext :: bool
  canvasWidth :: nat
  canvasHeight :: nat
  imageData :: "int list"

text \<open>Setting the canvas size and \<open>ctx.drawImage(video, 0, 0, ...)\<close>.\<close>

definition drawFrame :: "video_element \<Rightarrow> canvas_element \<Rightarrow> canvas_element" where
  "drawFrame video canvas =
     canvas\<lparr> canvasWidth := videoWidth video, canvasHeight := videoHeight video,
             imageData := frame video \<rparr>"

text \<open>
  The JSON body of the detection endpoint: its \<open>success\<close> flag, the length of its
  \<open>faces\<close> array when there is one, and its \<open>count\<close> (0 when absent).
\<close>

record detect_data =
  success :: bool
  faces :: "nat option"
  d_count :: nat

datatype detect_reply = DetectRejected | DetectInvalidJson | DetectJson detect_data

text \<open>
  The interval installed by \<open>startFaceDetection\<close>: its period in milliseconds and the
  state values its callback \<open>detectFace\<close> closes over.
\<close>

record detection_interval =
  period :: nat
  capturedActive :: bool
  capturedBackendEnabled :: bool
  capturedLastBlink :: int

text \<open>
  The state of \<open>useCamera\<close> that detection touches; the captured photo, the flash
  effect and the media stream are left out. \<open>requestsSent\<close> counts the requests
  sent to the detection endpoint.
\<close>

record camera_state =
  isActive :: bool
  cameraError :: "string option"
  faceDetected :: bool
  eyeBlinkCount :: nat
  lastBlinkTime :: int
  backendDetectionEnabled :: bool
  detectionResults :: "detect_data option"
  videoRef :: "video_element option"
  canvasRef :: "canvas_element option"
  faceDetectionRef :: "detection_interval option"
  requestsSent :: nat

text \<open>
  \<open>performBackendDetection\<close>; \<open>active\<close> is the value of \<open>isActive\<close> in the closure.
  The result is the data of a successful reply, \<open>None\<close> for \<open>null\<close>.
\<close>

definition performBackendDetection ::
  "bool \<Rightarrow> detect_reply \<Rightarrow> camera_state \<Rightarrow> detect_data option \<times> camera_state" where
  "performBackendDetection active reply st =
     (case videoRef st of
        None \<Rightarrow> (None, st)
      | Some video \<Rightarrow>
          (case canvasRef st of
             None \<Rightarrow> (None, st)
           | Some canvas \<Rightarrow>
               if \<not> active then (None, st)
               else if \<not> hasContext canvas \<or> videoWidth video = 0 \<or> videoHeight video = 0
               then (None, st)
               else
                 (let st1 = st\<lparr> canvasRef := Some (drawFrame video canvas),
                                 requestsSent := requestsSent st + 1 \<rparr>
                  in case reply of
                       DetectJson d \<Rightarrow>
                         if success d
                         then (Some d, st1\<lparr> detectionResults := Some d,
                                            faceDetected := (case faces d of None \<Rightarrow> False
                                                                          | Some n \<Rightarrow> n > 0) \<rparr>)
                         else (None, st1\<lparr> backendDetectionEnabled := False \<rparr>)
                     | DetectRejected \<Rightarrow> (None, st1\<lparr> backendDetectionEnabled := False \<rparr>)
                     | DetectInvalidJson \<Rightarrow> (None, st1\<lparr> backendDetectionEnabled := False \<rparr>))))"

text \<open>
  \<open>performClientSideDetection\<close> of \<open>useCamera\<close>; \<open>lastBlink\<close> is the value of
  \<open>lastBlinkTime\<close> in the closure. It dereferences both refs without a test.
\<close>

definition performClientSideDetection ::
  "int \<Rightarrow> int \<Rightarrow> camera_state \<Rightarrow> js_error + camera_state" where
  "performClientSideDetection lastBlink now st =
     (case videoRef st of
        None \<Rightarrow> Inl TypeError
      | Some video \<Rightarrow>
          (case canvasRef st of
             None \<Rightarrow> Inl TypeError
           | Some canvas \<Rightarrow>
               if \<not> hasContext canvas \<or> videoWidth video = 0 \<or> videoHeight video = 0
               then Inr st
               else
                 (let canvas' = drawFrame video canvas;
                      facePresent = facePresentIn (imageData canvas');
                      st1 = st\<lparr> canvasRef := Some canvas', faceDetected := facePresent \<rparr>
                  in if facePresent \<and> now - lastBlink > 2000
                     then Inr (st1\<lparr> eyeBlinkCount := eyeBlinkCount st1 + 1, lastBlinkTime := now \<rparr>)
                     else Inr st1)))"

definition detectFace ::
  "bool \<Rightarrow> bool \<Rightarrow> int \<Rightarrow> detect_reply \<Rightarrow> int \<Rightarrow> camera_state \<Rightarrow> js_error + camera_state" where
  "detectFace active backendEnabled lastBlink reply now st =
     (if videoRef st = None \<or> canvasRef st = None \<or> \<not> active then Inr st
      else if backendEnabled
      then (case performBackendDetection active reply st of
              (None, st1) \<Rightarrow> performClientSideDetection lastBlink now st1
            | (Some d, st1) \<Rightarrow> Inr st1)
      else performClientSideDetection lastBlink now st)"

text \<open>
  \<open>startFaceDetection\<close>, called from a render in which the state values are
  \<open>active\<close>, \<open>backendEnabled\<close> and \<open>lastBlink\<close>: \<open>setInterval(detectFace, 1000)\<close>.
\<close>

definition startFaceDetection :: "bool \<Rightarrow> bool \<Rightarrow> int \<Rightarrow> camera_state \<Rightarrow> camera_state" where
  "startFaceDetection active backendEnabled lastBlink st =
     (if videoRef st = None \<or> canvasRef st = None then st
      else st\<lparr> faceDetectionRef :=
                 Some \<lparr> period = 1000, capturedActive = active,
                        capturedBackendEnabled = backendEnabled,
                        capturedLastBlink = lastBlink \<rparr> \<rparr>)"

text \<open>One firing of the installed interval; no interval, no call.\<close>

definition detectionTick :: "detect_reply \<Rightarrow> int \<Rightarrow> camera_state \<Rightarrow> js_error + camera_state" where
  "detectionTick reply now st =
     (case faceDetectionRef st of
        None \<Rightarrow> Inr st
      | Some iv \<Rightarrow>
          detectFace (capturedActive iv) (capturedBackendEnabled iv) (capturedLastBlink iv) reply now st)"

definition stopCamera :: "camera_state \<Rightarrow> camera_state" where
  "stopCamera st =
     st\<lparr> faceDetectionRef := None, isActive := False, faceDetected := False,
          cameraError := None \<rparr>"

text \<open>
  \<open>startCamera\<close>. \<open>getUserMedia\<close> rejects with the name of its error, or grants the
  camera; \<open>played\<close> says whether the metadata handler of the video ran, which sets
  \<open>isActive\<close>. The result is the error thrown, if any, and the new state.
\<close>

datatype camera_access = AccessDenied string | AccessGranted bool

definition cameraErrorMessage :: "string \<Rightarrow> string" where
  "cameraErrorMessage errorName =
     ''Unable to access camera. '' @
     (if errorName = ''NotAllowedError''
      then ''Please allow camera permissions in your browser settings.''
      else if errorName = ''NotFoundError''
      then ''No camera found. Please connect a camera and try again.''
      else if errorName = ''NotReadableError''
      then ''Camera is being used by another application.''
      else if errorName = ''OverconstrainedError''
      then ''Camera does not support the required settings.''
      else ''Please check your camera settings and try again.'')"

definition startCamera :: "camera_access \<Rightarrow> camera_state \<Rightarrow> js_error option \<times> camera_state" where
  "startCamera access st =
     (case access of
        AccessDenied errorName \<Rightarrow>
          (Some (CameraFailure (cameraErrorMessage errorName)),
           st\<lparr> cameraError := Some (cameraErrorMessage errorName) \<rparr>)
      | AccessGranted played \<Rightarrow>
          (None,
           if videoRef st = None then st\<lparr> cameraError := None \<rparr>
           else if played then st\<lparr> cameraError := None, isActive := True \<rparr>
           else st\<lparr> cameraError := None \<rparr>))"

text \<open>
  The timer that a successful \<open>startCamera\<close> with a video element starts, firing one
  second later: it calls \<open>startFaceDetection\<close>. \<open>startCamera\<close> is memoised by
  \<open>useCallback\<close> with an empty dependency list, so in every render it is the callback
  that the first render created, and the \<open>startFaceDetection\<close> it refers to is the one of
  that first render. That one closes over the initial values of the state cells:
  \<open>isActive\<close> false, \<open>backendDetectionEnabled\<close> true, \<open>lastBlinkTime\<close> 0. Nothing
  else calls \<open>startFaceDetection\<close>, and the hook does not return it.
\<close>

definition startCameraTimer :: "camera_state \<Rightarrow> camera_state" where
  "startCameraTimer st = startFaceDetection False True 0 st"

section \<open>The camera self-test screen\<close>

datatype check_status = Checking | Success | CheckError | NoCamera

record camera_check =
  faceCount :: nat
  checkStatus :: check_status
  readyCalls :: "bool list"

text \<open>
  \<open>performClientSideDetection\<close> of \<open>CameraCheck\<close>: it reads the canvas as the failed
  backend attempt left it. \<open>readyCalls\<close> collects the calls of \<open>onCameraReady\<close>.
\<close>

definition checkClientSideDetection ::
  "canvas_element option \<Rightarrow> video_element option \<Rightarrow> camera_check \<Rightarrow> camera_check" where
  "checkClientSideDetection canvasOpt videoOpt cc =
     (case canvasOpt of
        None \<Rightarrow> cc
      | Some canvas \<Rightarrow>
          (case videoOpt of
             None \<Rightarrow> cc
           | Some video \<Rightarrow>
               if \<not> hasContext canvas then cc
               else if facePresentIn (imageData canvas)
               then cc\<lparr> faceCount := 1, checkStatus := Success, readyCalls := readyCalls cc @ [True] \<rparr>
               else cc\<lparr> faceCount := 0 \<rparr>))"

text \<open>The pixels of a frame, four numbers each, as the spec's words count them.\<close>

fun pixelsOf :: "int list \<Rightarrow> (int \<times> int \<times> int) list" where
  "pixelsOf (r # g # b # a # rest) = (r, g, b) # pixelsOf rest"
| "pixelsOf xs = []"

definition skinFraction :: "int list \<Rightarrow> real" where
  "skinFraction xs =
     real (length (filter (\<lambda>(r, g, b). skinTone r g b) (pixelsOf xs))) / real (length (pixelsOf xs))"

section \<open>The analytics panel\<close>

text \<open>
  The polling effect of \<open>InterviewAnalytics\<close>. Every interval created by
  \<open>setInterval\<close> is an entry of \<open>intervals\<close> (whether it is still installed, and its
  period); \<open>cleanup\<close> is the interval that the cleanup function returned by the last
  effect run will clear, \<open>lastDeps\<close> the dependencies of that run (\<open>None\<close> while the
  component is not mounted), \<open>fetchesIssued\<close> the number of requests sent so far.
\<close>

record analytics_state =
  analyticsData :: "string list"
  realTimeMetrics :: string
  intervals :: "(bool \<times> nat) list"
  cleanup :: "nat option"
  lastDeps :: "(string \<times> bool) option"
  fetchesIssued :: nat

definition analyticsInitial :: analytics_state where
  "analyticsInitial =
     \<lparr> analyticsData = [], realTimeMetrics = [], intervals = [], cleanup = None,
       lastDeps = None, fetchesIssued = 0 \<rparr>"

text \<open>The body of the effect: nothing when not visible, else the interval and the first fetch.\<close>

definition analyticsEffect :: "bool \<Rightarrow> analytics_state \<Rightarrow> analytics_state" where
  "analyticsEffect isVisible st =
     (if \<not> isVisible then st\<lparr> cleanup := None \<rparr>
      else st\<lparr> intervals := intervals st @ [(True, 5000)],
               cleanup := Some (length (intervals st)),
               fetchesIssued := fetchesIssued st + 1 \<rparr>)"

text \<open>The cleanup function of the last effect run: \<open>clearInterval(interval)\<close>.\<close>

definition runCleanup :: "analytics_state \<Rightarrow> analytics_state" where
  "runCleanup st =
     (case cleanup st of
        None \<Rightarrow> st
      | Some i \<Rightarrow> st\<lparr> intervals := (intervals st)[i := (False, snd (intervals st ! i))],
                       cleanup := None \<rparr>)"

text \<open>
  What the response of a fetch does; \<open>metrics\<close> is the value of \<open>realTimeMetrics\<close> in
  the closure. A rejected fetch and a reply that is not ok change nothing.
\<close>

datatype analytics_reply =
  AnalyticsRejected
| AnalyticsReply bool "string list option" "string option"

definition fetchAnalyticsDone :: "string \<Rightarrow> analytics_reply \<Rightarrow> analytics_state \<Rightarrow> analytics_state" where
  "fetchAnalyticsDone metrics reply st =
     (case reply of
        AnalyticsRejected \<Rightarrow> st
      | AnalyticsReply ok analytics rt \<Rightarrow>
          if ok
          then st\<lparr> analyticsData := (case analytics of None \<Rightarrow> [] | Some a \<Rightarrow> a),
                   realTimeMetrics := (case rt of None \<Rightarrow> metrics | Some m \<Rightarrow> orElse m metrics) \<rparr>
          else st)"

text \<open>
  The events of the component: a render with its props (the effect runs again, after the
  cleanup of the previous run, when a dependency changed), the unmount, the firing of
  interval \<open>i\<close>, and the arrival of a response.
\<close>

datatype ui_event =
  Render string bool
| Unmount
| TimerFires nat
| ResponseArrives string analytics_reply

fun uiStep :: "analytics_state \<Rightarrow> ui_event \<Rightarrow> analytics_state" where
  "uiStep st (Render sessionId isVisible) =
     (if lastDeps st = Some (sessionId, isVisible) then st
      else (analyticsEffect isVisible (runCleanup st))\<lparr> lastDeps := Some (sessionId, isVisible) \<rparr>)"
| "uiStep st Unmount = (runCleanup st)\<lparr> lastDeps := None \<rparr>"
| "uiStep st (TimerFires i) =
     (if i < length (intervals st) \<and> fst (intervals st ! i)
      then st\<lparr> fetchesIssued := fetchesIssued st + 1 \<rparr> else st)"
| "uiStep st (ResponseArrives metrics reply) = fetchAnalyticsDone metrics reply st"

fun uiRun :: "analytics_state \<Rightarrow> ui_event list \<Rightarrow> analytics_state" where
  "uiRun st [] = st"
| "uiRun st (e # es) = uiRun (uiStep st e) es"

definition installedIntervals :: "analytics_state \<Rightarrow> nat list" where
  "installedIntervals st = map snd (filter fst (intervals st))"

definition panelVisible :: "analytics_state \<Rightarrow> bool" where
  "panelVisible st = (case lastDeps st of None \<Rightarrow> False | Some (sessionId, isVisible) \<Rightarrow> isVisible)"

section \<open>Notions of the specification\<close>

text \<open>
  A word occurring in a text: a stretch of the text that is not preceded and not followed
  by a word character.
\<close>

definition occursAsWord :: "string \<Rightarrow> string \<Rightarrow> bool" where
  "occursAsWord w s =
     (\<exists>pre post. s = pre @ w @ post \<and>
        (pre = [] \<or> \<not> isWordChar (last pre)) \<and> (post = [] \<or> \<not> isWordChar (hd post)))"

text \<open>
  The invariant of the polling effect: the installed intervals are the one of the last
  effect run while the panel is visible, and none otherwise.
\<close>

definition pollingInv :: "analytics_state \<Rightarrow> bool" where
  "pollingInv st =
     (installedIntervals st = (if panelVisible st then [5000] else []) \<and>
      (case cleanup st of
         None \<Rightarrow> \<not> panelVisible st
       | Some i \<Rightarrow> panelVisible st \<and> i < length (intervals st) \<and> intervals st ! i = (True, 5000)))"

text \<open>
  A failed request for questions: the stored data cannot be parsed, the fetch rejects, the
  body is not JSON, the reply is not ok, or it carries no questions array.
\<close>

definition requestFailed :: "bool \<Rightarrow> backend_reply \<Rightarrow> bool" where
  "requestFailed storageOk reply =
     (\<not> storageOk \<or>
      (case reply of
         NetworkError m \<Rightarrow> True
       | InvalidJson m \<Rightarrow> True
       | Reply ok err qs \<Rightarrow> \<not> ok \<or> qs = None))"

text \<open>
  A run is disciplined when \<open>startListening\<close> is only called while \<open>isRecording\<close> is
  false and no earlier call of it is still waiting for the microphone, as a record button
  does that is disabled while it waits and toggles between start and stop.
\<close>

fun startsListening :: "op \<Rightarrow> bool" where
  "startsListening StartListening = True"
| "startsListening x = False"

fun disciplined :: "window \<Rightarrow> hook_state list \<Rightarrow> (nat \<times> op) list \<Rightarrow> bool" where
  "disciplined w hist [] = True"
| "disciplined w hist ((k, x) # cs) =
     ((if startsListening x then \<not> isRecording (last hist) \<and> pendingMic (last hist) = 0 else True) \<and>
      disciplined w (hist @ [step w (renderOf hist k) (last hist) x]) cs)"

text \<open>
  The invariant of disciplined runs: the recorders that are recording are the one the ref
  points to while \<open>isRecording\<close> is true, and none otherwise; at most one call waits for
  the microphone, and none while \<open>isRecording\<close> is true.
\<close>

definition recorderInv :: "hook_state \<Rightarrow> bool" where
  "recorderInv st =
     (recordingCount st = (if isRecording st then 1 else 0) \<and>
      pendingMic st \<le> 1 \<and>
      (if isRecording st
       then pendingMic st = 0 \<and>
            (case mediaRecorderRef st of
               None \<Rightarrow> False
             | Some i \<Rightarrow> i < length (recorders st) \<and> recorders st ! i = RecRecording)
       else True))"

fun completes :: "op \<Rightarrow> bool" where
  "completes (CompleteInterview now stamp r1 r2) = True"
| "completes x = False"

text \<open>
  The invariant of the result field: a completed session has a result, a session in
  progress has none.
\<close>

definition resultInv :: "hook_state \<Rightarrow> bool" where
  "resultInv st =
     (case currentSession st of
        None \<Rightarrow> True
      | Some cur \<Rightarrow> (status cur = Completed \<longrightarrow> result cur \<noteq> None) \<and>
                    (status cur = InProgress \<longrightarrow> result cur = None))"

section \<open>Sample inputs\<close>

definition sampleJob :: job_description where
  "sampleJob =
     \<lparr> title = ''Backend Engineer'', company = ''Acme'', jd_type = ''technical'',
       level = ''entry'', requirements = Some ''Python, SQL'' \<rparr>"

definition cppJob :: job_description where
  "cppJob = sampleJob\<lparr> requirements := Some ''C++, Python'' \<rparr>"

definition sampleStudent :: student_info where
  "sampleStudent = \<lparr> name = ''Asha'', userId = None \<rparr>"

definition sampleWindow :: window where
  "sampleWindow = \<lparr> speechSynthesis = True, speechRecognition = True \<rparr>"

text \<open>
  A stand-in for the host's RegExp on the patterns used below: a pattern in which \<open>+\<close>
  follows \<open>+\<close> does not compile (nothing to repeat), any other is tried as a plain word.
\<close>

definition sampleRegExp :: "string \<Rightarrow> string \<Rightarrow> bool option" where
  "sampleRegExp p a = (if sublist ''++'' p then None else Some (sublist (toLowerCase p) (toLowerCase a)))"

definition startedState :: "job_description \<Rightarrow> hook_state" where
  "startedState jd =
     snd (startInterview True (NetworkError ''Failed to fetch'') 1000 ''2024-05-01T10:00:00.000Z''
            ''k3j9x0q1z'' sampleStudent jd initialState)"

definition sampleAnswer :: string where
  "sampleAnswer = ''In my last Project I improved the Python jobs, the jobs run 40% faster''"

definition sampleFrame :: "int list" where
  "sampleFrame = [200, 120, 90, 255,  10, 10, 10, 255,  210, 140, 100, 255,  0, 0, 255, 255]"

definition sampleVideo :: video_element where
  "sampleVideo = \<lparr> videoWidth = 2, videoHeight = 2, frame = sampleFrame \<rparr>"

definition sampleCanvas :: canvas_element where
  "sampleCanvas = \<lparr> hasContext = True, canvasWidth = 0, canvasHeight = 0, imageData = [] \<rparr>"

definition sampleCamera :: camera_state where
  "sampleCamera =
     \<lparr> isActive = True, cameraError = None, faceDetected = False, eyeBlinkCount = 0,
       lastBlinkTime = 0, backendDetectionEnabled = True, detectionResults = None,
       videoRef = Some sampleVideo, canvasRef = Some sampleCanvas, faceDetectionRef = None,
       requestsSent = 0 \<rparr>"

text \<open>The camera hook as it is mounted: the initial values of its state cells, the elements attached.\<close>

definition mountedCamera :: camera_state where
  "mountedCamera =
     \<lparr> isActive = False, cameraError = None, faceDetected = False, eyeBlinkCount = 0,
       lastBlinkTime = 0, backendDetectionEnabled = True, detectionResults = None,
       videoRef = Some sampleVideo, canvasRef = Some sampleCanvas, faceDetectionRef = None,
       requestsSent = 0 \<rparr>"

definition sampleCheck :: camera_check where
  "sampleCheck = \<lparr> faceCount = 0, checkStatus = Checking, readyCalls = [] \<rparr>"

definition sampleEvents :: "ui_event list" where
  "sampleEvents = [Render ''s1'' False, Render ''s1'' True, TimerFires 0, Render ''s2'' True]"

definition sampleGenerated :: generated_questions where
  "sampleGenerated = \<lparr> gq_questions = [], gq_loading = False, gq_error = None \<rparr>"

text \<open>
  A disciplined run, each call through the latest callback: record, stop, record again.
\<close>

definition sampleListening :: "(nat \<times> op) list" where
  "sampleListening =
     [(0, StartListening), (1, MicrophoneSettles True), (2, StopListening),
      (3, StartListening), (4, MicrophoneSettles True)]"

definition sampleStart :: op where
  "sampleStart = StartInterview True (NetworkError ''Failed to fetch'') 1000 ''2024-05-01T10:00:00.000Z''
                   ''k3j9x0q1z'' sampleStudent sampleJob"

definition sampleSubmit :: op where
  "sampleSubmit = SubmitResponse sampleRegExp (1/2) (1/4) (3/4) ''fallback-0'' sampleAnswer 45 None"

definition answeredState :: hook_state where
  "answeredState = run sampleWindow initialState [sampleStart, sampleSubmit]"

definition sampleComplete :: op where
  "sampleComplete = CompleteInterview 61000 ''2024-05-01T10:01:00.000Z'' (1/2) (1/2)"

definition completedState :: hook_state where
  "completedState = step sampleWindow answeredState answeredState sampleComplete"

text \<open>An interview, each call through the callback of the latest render.\<close>

definition sampleInterview :: "(nat \<times> op) list" where
  "sampleInterview = [(0, sampleStart), (1, sampleSubmit), (2, sampleComplete)]"

text \<open>
  The same interview, followed by a call of the \<open>submitResponse\<close> that the render of
  state number 2 created, the one whose \<open>completeInterview\<close> has just been called: a
  handler that completes the interview and then submits an answer, or a submission that
  a timer of that render delivers late.
\<close>

definition sampleLateSubmit :: "(nat \<times> op) list" where
  "sampleLateSubmit =
     [(0, sampleStart), (1, sampleSubmit), (2, sampleComplete), (2, sampleSubmit)]"


section \<open>The scores and keywords of a response\<close>

lemma if_add_ge: "(0::int) \<le> k \<Longrightarrow> a \<le> x \<Longrightarrow> a \<le> (if b then x + k else x)"
  by simp

lemma makeResponse_bounds:
  assumes "0 \<le> r1" "0 \<le> r2"
    and "makeResponse rx r1 r2 r3 jd qid ans dur blob = Inr resp"
  shows "70 \<le> confidence resp \<and> confidence resp \<le> 100 \<and>
         75 \<le> clarity resp \<and> clarity resp \<le> 100 \<and>
         60 \<le> relevanceScore resp \<and> relevanceScore resp \<le> 100"
proof -
  have f1: "0 \<le> \<lfloor>r1 * 20\<rfloor>" using assms(1) by simp
  have f2: "0 \<le> \<lfloor>r2 * 20\<rfloor>" using assms(2) by simp
  from assms(3) obtain h where
    c: "confidence resp = min 100
          (let c0 = \<lfloor>r1 * 20\<rfloor> + 70;
               c1 = (if int (length ans) > 100 then c0 + 5 else c0);
               c2 = (if int (length ans) > 200 then c1 + 5 else c1);
               c3 = (if hasSpecificExamples ans then c2 + 10 else c2);
               c4 = (if hasQuantifiableResults ans then c3 + 8 else c3)
           in (if h then c4 + 7 else c4))"
    and l: "clarity resp = min 100
          (let l0 = \<lfloor>r2 * 20\<rfloor> + 75;
               l1 = (if dur > 30 \<and> dur < 180 then l0 + 5 else l0)
           in (if length (uniqueOf (matchWords4 (toLowerCase ans))) > 10 then l1 + 5 else l1))"
    and r: "relevanceScore resp = min 100
          (let v1 = (if hasSpecificExamples ans then 60 + 15 else 60);
               v2 = (if hasQuantifiableResults ans then v1 + 10 else v1)
           in (if h then v2 + 12 else v2))"
    unfolding makeResponse_def Let_def
    by (cases "case requirements jd of None \<Rightarrow> Some False
               | Some req \<Rightarrow> if req = [] then Some False else rx (relevantPattern req) ans")
       (simp_all, fastforce)
  have "70 \<le> confidence resp" unfolding c Let_def using f1
    by (intro min.boundedI if_add_ge) simp_all
  moreover have "confidence resp \<le> 100" unfolding c by simp
  moreover have "75 \<le> clarity resp" unfolding l Let_def using f2
    by (intro min.boundedI if_add_ge) simp_all
  moreover have "clarity resp \<le> 100" unfolding l by simp
  moreover have "60 \<le> relevanceScore resp" unfolding r Let_def
    by (intro min.boundedI if_add_ge) simp_all
  moreover have "relevanceScore resp \<le> 100" unfolding r by simp
  ultimately show ?thesis by simp
qed

lemma submitResponse_Inr:
  assumes "currentSession snap = Some cur"
    and "submitResponse rx r1 r2 r3 qid ans dur blob snap st = Inr st'"
  shows "\<exists>resp. makeResponse rx r1 r2 r3 (jobDescription cur) qid ans dur blob = Inr resp \<and>
           st' = st\<lparr> currentSession := Some (cur\<lparr> responses := responses cur @ [resp] \<rparr>) \<rparr>"
  using assms by (auto simp: submitResponse_def split: sum.splits)

lemma sample_current: "currentSession (startedState jd) \<noteq> None"
  by (simp add: startedState_def startInterview_def Let_def)

lemma sample_requirements:
  "requirements (jobDescription (the (currentSession (startedState sampleJob)))) = Some ''Python, SQL''"
  by (simp add: startedState_def startInterview_def Let_def sampleJob_def)

lemma sample_pattern: "relevantPattern ''Python, SQL'' = ''Python|SQL''"
  by (simp add: relevantPattern_def isSep_def isSpace_def)

lemma sample_submit_ok:
  "\<not> isl (submitResponse sampleRegExp (1/2) (1/4) (3/4) ''fallback-0'' sampleAnswer 45 None
            (startedState sampleJob) (startedState sampleJob))"
  using sample_current[of sampleJob] sample_requirements
  by (auto simp: submitResponse_def makeResponse_def Let_def sample_pattern sampleRegExp_def
        sublist_code split: option.splits sum.splits)

lemma sample_submit_Inr:
  "submitResponse sampleRegExp (1/2) (1/4) (3/4) ''fallback-0'' sampleAnswer 45 None
     (startedState sampleJob) (startedState sampleJob)
     = Inr (projr (submitResponse sampleRegExp (1/2) (1/4) (3/4) ''fallback-0'' sampleAnswer 45 None
                     (startedState sampleJob) (startedState sampleJob)))"
  using sample_submit_ok by (simp add: sum.collapse)

text \<open>
  C8. Whatever the answer, the duration, the host's regular-expression engine and the
  random values (\<open>Math.random()\<close> is never negative), a call of \<open>submitResponse\<close> on an
  existing session that returns stores a response whose confidence is an integer in
  [70, 100], whose clarity is an integer in [75, 100] and whose relevance score is an
  integer in [60, 100]. This holds for the callback of any render that had a session,
  called in any state.
\<close>

theorem submitResponse_scores_bounded:
  assumes "0 \<le> r1" and "0 \<le> r2"
    and "currentSession snap = Some cur"
    and "submitResponse rx r1 r2 r3 qid ans dur blob snap st = Inr st'"
  shows "sessionResponses st' \<noteq> [] \<and>
         70 \<le> confidence (last (sessionResponses st')) \<and>
         confidence (last (sessionResponses st')) \<le> 100 \<and>
         75 \<le> clarity (last (sessionResponses st')) \<and>
         clarity (last (sessionResponses st')) \<le> 100 \<and>
         60 \<le> relevanceScore (last (sessionResponses st')) \<and>
         relevanceScore (last (sessionResponses st')) \<le> 100"
proof -
  from submitResponse_Inr[OF assms(3,4)] obtain resp where
    m: "makeResponse rx r1 r2 r3 (jobDescription cur) qid ans dur blob = Inr resp" and
    s: "st' = st\<lparr> currentSession := Some (cur\<lparr> responses := responses cur @ [resp] \<rparr>) \<rparr>"
    by blast
  have l: "sessionResponses st' = responses cur @ [resp]"
    by (simp add: s sessionResponses_def)
  show ?thesis
    using makeResponse_bounds[OF assms(1,2) m] by (simp add: l)
qed

theorem submitResponse_scores_bounded_witness:
  "(0::real) \<le> 1/2 \<and> (0::real) \<le> 1/4 \<and>
   70 \<le> confidence (last (sessionResponses (projr
      (submitResponse sampleRegExp (1/2) (1/4) (3/4) ''fallback-0'' sampleAnswer 45 None
         (startedState sampleJob) (startedState sampleJob))))) \<and>
   clarity (last (sessionResponses (projr
      (submitResponse sampleRegExp (1/2) (1/4) (3/4) ''fallback-0'' sampleAnswer 45 None
         (startedState sampleJob) (startedState sampleJob))))) \<le> 100 \<and>
   60 \<le> relevanceScore (last (sessionResponses (projr
      (submitResponse sampleRegExp (1/2) (1/4) (3/4) ''fallback-0'' sampleAnswer 45 None
         (startedState sampleJob) (startedState sampleJob)))))"
proof -
  obtain cur where c: "currentSession (startedState sampleJob) = Some cur"
    using sample_current by blast
  show ?thesis
    using submitResponse_scores_bounded[OF _ _ c sample_submit_Inr] by simp
qed

lemma toLowerChar_idem: "toLowerChar (toLowerChar c) = toLowerChar c"
  by (auto simp: toLowerChar_def Let_def)

lemma wordRuns_occurs:
  assumes "list_all isWordChar cur" and "p0 = [] \<or> \<not> isWordChar (last p0)"
    and "w \<in> set (wordRuns cur s)"
  shows "w \<noteq> [] \<and> list_all isWordChar w \<and>
         (\<exists>pre post. p0 @ cur @ s = pre @ w @ post \<and>
            (pre = [] \<or> \<not> isWordChar (last pre)) \<and> (post = [] \<or> \<not> isWordChar (hd post)))"
  using assms
proof (induction s arbitrary: cur p0)
  case Nil
  then have "w = cur" "cur \<noteq> []" by (auto split: if_splits)
  with Nil show ?case by (intro conjI exI[of _ p0] exI[of _ "[]"]) simp_all
next
  case (Cons c cs)
  show ?case
  proof (cases "isWordChar c")
    case True
    with Cons.prems have "w \<in> set (wordRuns (cur @ [c]) cs)" by simp
    moreover have "list_all isWordChar (cur @ [c])" using True Cons.prems(1) by simp
    ultimately show ?thesis using Cons.IH[of "cur @ [c]" p0] Cons.prems(2) by simp
  next
    case False
    with Cons.prems(3) consider (a) "w = cur" "cur \<noteq> []" | (b) "w \<in> set (wordRuns [] cs)"
      by (auto split: if_splits)
    then show ?thesis
    proof cases
      case a
      with Cons.prems False show ?thesis
        by (intro conjI exI[of _ p0] exI[of _ "c # cs"]) simp_all
    next
      case b
      have "p0 @ cur @ [c] = [] \<or> \<not> isWordChar (last (p0 @ cur @ [c]))" using False by simp
      from Cons.IH[of "[]" "p0 @ cur @ [c]", OF _ this] b show ?thesis by simp
    qed
  qed
qed

lemma setInsertAll_distinct: "distinct seen \<Longrightarrow> distinct (setInsertAll seen xs)"
  by (induction xs arbitrary: seen) auto

lemma setInsertAll_set: "set (setInsertAll seen xs) = set seen \<union> set xs"
  by (induction xs arbitrary: seen) auto

lemma uniqueOf_distinct: "distinct (uniqueOf xs)"
  by (simp add: uniqueOf_def setInsertAll_distinct)

lemma uniqueOf_set: "set (uniqueOf xs) = set xs"
  by (simp add: uniqueOf_def setInsertAll_set)

lemma matchWords4_member:
  assumes "w \<in> set (matchWords4 s)"
  shows "4 \<le> length w \<and> list_all isWordChar w \<and> occursAsWord w s"
proof -
  from assms have l: "4 \<le> length w" and m: "w \<in> set (wordRuns [] s)"
    by (simp_all add: matchWords4_def)
  from wordRuns_occurs[of "[]" "[]" w s] m show ?thesis
    using l by (simp add: occursAsWord_def)
qed

lemma lowered_sublist:
  assumes "toLowerCase s = pre @ w @ post"
  shows "map toLowerChar w = w \<and> (\<exists>v. sublist v s \<and> toLowerCase v = w)"
proof -
  from assms have "\<exists>a r. s = a @ r \<and> pre = map toLowerChar a \<and> w @ post = map toLowerChar r"
    unfolding toLowerCase_def by (simp add: map_eq_append_conv)
  then obtain a r where s1: "s = a @ r" and r: "w @ post = map toLowerChar r" by blast
  from r have "\<exists>b c. r = b @ c \<and> w = map toLowerChar b \<and> post = map toLowerChar c"
    by (simp add: append_eq_map_conv)
  then obtain b c where s2: "r = b @ c" and w: "w = map toLowerChar b" by blast
  have s: "s = a @ b @ c" by (simp add: s1 s2)
  have "map toLowerChar w = w" by (simp add: w toLowerChar_idem)
  moreover have "sublist b s" unfolding s sublist_def by blast
  ultimately show ?thesis using w by (auto simp: toLowerCase_def)
qed

lemma makeResponse_keywords:
  assumes "makeResponse rx r1 r2 r3 jd qid ans dur blob = Inr resp"
  shows "r_keywords resp = take 10 (uniqueOf (matchWords4 (toLowerCase ans)))"
  using assms unfolding makeResponse_def Let_def
  by (cases "case requirements jd of None \<Rightarrow> Some False
               | Some req \<Rightarrow> if req = [] then Some False else rx (relevantPattern req) ans")
     (simp_all, fastforce)

text \<open>
  C10. The keywords stored by \<open>submitResponse\<close> in the new response are at most ten and
  pairwise distinct, and each of them has at least four characters, all of them word
  characters, is in lower case, occurs as a word in the lowered answer and is the lowered
  form of a stretch of the answer itself. This holds for the callback of any render that
  had a session, called in any state.
\<close>

theorem submitResponse_keywords:
  assumes "currentSession snap = Some cur"
    and "submitResponse rx r1 r2 r3 qid ans dur blob snap st = Inr st'"
  shows "length (r_keywords (last (sessionResponses st'))) \<le> 10 \<and>
         distinct (r_keywords (last (sessionResponses st'))) \<and>
         (\<forall>k \<in> set (r_keywords (last (sessionResponses st'))).
            4 \<le> length k \<and> list_all isWordChar k \<and> toLowerCase k = k \<and>
            occursAsWord k (toLowerCase ans) \<and> (\<exists>v. sublist v ans \<and> toLowerCase v = k))"
proof -
  from submitResponse_Inr[OF assms] obtain resp where
    m: "makeResponse rx r1 r2 r3 (jobDescription cur) qid ans dur blob = Inr resp" and
    s: "st' = st\<lparr> currentSession := Some (cur\<lparr> responses := responses cur @ [resp] \<rparr>) \<rparr>"
    by blast
  have l: "last (sessionResponses st') = resp"
    by (simp add: s sessionResponses_def)
  have k: "r_keywords resp = take 10 (uniqueOf (matchWords4 (toLowerCase ans)))"
    by (rule makeResponse_keywords[OF m])
  have "length (r_keywords resp) \<le> 10" by (simp add: k)
  moreover have "distinct (r_keywords resp)" by (simp add: k uniqueOf_distinct)
  moreover have "4 \<le> length w \<and> list_all isWordChar w \<and> toLowerCase w = w \<and>
            occursAsWord w (toLowerCase ans) \<and> (\<exists>v. sublist v ans \<and> toLowerCase v = w)"
    if "w \<in> set (r_keywords resp)" for w
  proof -
    from that have "w \<in> set (matchWords4 (toLowerCase ans))"
      unfolding k using uniqueOf_set by (metis in_set_takeD)
    from matchWords4_member[OF this] have a: "4 \<le> length w" "list_all isWordChar w"
      and o: "occursAsWord w (toLowerCase ans)" by simp_all
    from o obtain pre post where "toLowerCase ans = pre @ w @ post"
      unfolding occursAsWord_def by blast
    from lowered_sublist[OF this] show ?thesis using a o by (simp add: toLowerCase_def)
  qed
  ultimately show ?thesis unfolding l by blast
qed

lemma sample_keywords:
  "uniqueOf (matchWords4 (toLowerCase sampleAnswer)) = [''last'', ''project'', ''improved'', ''python'', ''jobs'', ''faster'']"
  by code_simp

theorem submitResponse_keywords_witness:
  "r_keywords (last (sessionResponses (projr
      (submitResponse sampleRegExp (1/2) (1/4) (3/4) ''fallback-0'' sampleAnswer 45 None
         (startedState sampleJob) (startedState sampleJob))))) = [''last'', ''project'', ''improved'', ''python'', ''jobs'', ''faster''] \<and>
    occursAsWord ''python'' (toLowerCase sampleAnswer)"
proof -
  obtain cur where c: "currentSession (startedState sampleJob) = Some cur"
    using sample_current by blast
  from submitResponse_Inr[OF c sample_submit_Inr] obtain resp where
    m: "makeResponse sampleRegExp (1/2) (1/4) (3/4) (jobDescription cur) ''fallback-0'' sampleAnswer 45 None = Inr resp" and
    s: "projr (submitResponse sampleRegExp (1/2) (1/4) (3/4) ''fallback-0'' sampleAnswer 45 None
         (startedState sampleJob) (startedState sampleJob)) = (startedState sampleJob)\<lparr> currentSession := Some (cur\<lparr> responses := responses cur @ [resp] \<rparr>) \<rparr>"
    by blast
  have k: "r_keywords (last (sessionResponses (projr
      (submitResponse sampleRegExp (1/2) (1/4) (3/4) ''fallback-0'' sampleAnswer 45 None
         (startedState sampleJob) (startedState sampleJob))))) = [''last'', ''project'', ''improved'', ''python'', ''jobs'', ''faster'']"
    unfolding s using makeResponse_keywords[OF m] by (simp add: sessionResponses_def sample_keywords)
  show ?thesis
    using submitResponse_keywords[OF c sample_submit_Inr] k by simp
qed

section \<open>Face detection\<close>

lemma drop4:
  assumes "i + 4 \<le> length xs"
  shows "drop i xs = xs ! i # xs ! (i + 1) # xs ! (i + 2) # xs ! (i + 3) # drop (i + 4) xs"
proof -
  have a: "drop i xs = xs ! i # drop (Suc i) xs" using assms by (simp add: Cons_nth_drop_Suc)
  have b: "drop (Suc i) xs = xs ! (Suc i) # drop (Suc (Suc i)) xs"
    using assms by (simp add: Cons_nth_drop_Suc)
  have c: "drop (Suc (Suc i)) xs = xs ! (Suc (Suc i)) # drop (Suc (Suc (Suc i))) xs"
    using assms by (simp add: Cons_nth_drop_Suc)
  have d: "drop (Suc (Suc (Suc i))) xs = xs ! (Suc (Suc (Suc i))) # drop (Suc (Suc (Suc (Suc i)))) xs"
    using assms by (simp add: Cons_nth_drop_Suc)
  have e: "i + 1 = Suc i" "i + 2 = Suc (Suc i)" "i + 3 = Suc (Suc (Suc i))" "i + 4 = Suc (Suc (Suc (Suc i)))"
    by simp_all
  show ?thesis unfolding e using a b c d by simp
qed

lemma length_pixelsOf: "4 dvd length xs \<Longrightarrow> 4 * length (pixelsOf xs) = length xs"
proof (induction xs rule: pixelsOf.induct)
  case (1 r g b a rest)
  then have "4 dvd length rest" by simp presburger
  with 1 show ?case by simp
qed (simp, simp, (simp, presburger)+)

lemma countSkin_pixels:
  assumes "i \<le> length xs" and "4 dvd (length xs - i)"
  shows "countSkin xs i k = k + length (filter (\<lambda>(r, g, b). skinTone r g b) (pixelsOf (drop i xs)))"
  using assms
proof (induction xs i k rule: countSkin.induct)
  case (1 xs i k)
  show ?case
  proof (cases "i < length xs")
    case False
    then show ?thesis using "1.prems" by (subst countSkin.simps) simp
  next
    case True
    with "1.prems" have four: "i + 4 \<le> length xs" by presburger
    have d: "4 dvd (length xs - (i + 4))" using "1.prems"(2) four
      by presburger
    have s: "skinAt xs i = skinTone (xs ! i) (xs ! (i + 1)) (xs ! (i + 2))"
      using four by (simp add: skinAt_def readAt_def)
    have "countSkin xs i k = countSkin xs (i + 4) (if skinAt xs i then k + 1 else k)"
      using True by (subst countSkin.simps) simp
    also have "\<dots> = (if skinAt xs i then k + 1 else k) +
        length (filter (\<lambda>(r, g, b). skinTone r g b) (pixelsOf (drop (i + 4) xs)))"
      using "1.IH"[OF True four d] .
    finally show ?thesis by (simp add: drop4[OF four] s)
  qed
qed



lemma skinRatio_fraction:
  assumes "4 dvd length xs"
  shows "skinRatio xs = skinFraction xs"
proof -
  have c: "countSkin xs 0 0 = length (filter (\<lambda>(r, g, b). skinTone r g b) (pixelsOf xs))"
    using countSkin_pixels[of 0 xs 0] assms by simp
  have "real (length xs) = 4 * real (length (pixelsOf xs))"
    using length_pixelsOf[OF assms] by (metis of_nat_mult of_nat_numeral)
  then show ?thesis by (simp add: skinRatio_def skinFraction_def c)
qed

text \<open>
  C9. The client-side detector reports a face exactly when the fraction of skin-tone
  pixels of the frame exceeds 0.02: on a frame of whole RGBA pixels the hook's
  \<open>performClientSideDetection\<close> returns with \<open>faceDetected\<close> set to that comparison,
  and the one of the self-test screen counts one face and reports success in that case and
  no face otherwise. A pixel is skin-tone exactly when r > 95, g > 40, b > 20,
  max(r,g,b) - min(r,g,b) > 15, |r - g| > 15, r > g and r > b.
\<close>

theorem clientSideDetection_skin_fraction:
  assumes "videoRef st = Some video" and "canvasRef st = Some canvas"
    and "hasContext canvas" and "videoWidth video \<noteq> 0" and "videoHeight video \<noteq> 0"
    and "4 dvd length (frame video)" and "4 dvd length (imageData shown)" and "hasContext shown"
  shows "(\<exists>st'. performClientSideDetection lastBlink now st = Inr st' \<and>
            (faceDetected st' \<longleftrightarrow> skinFraction (frame video) > 0.02)) \<and>
         checkClientSideDetection (Some shown) (Some video) cc =
           (if skinFraction (imageData shown) > 0.02
            then cc\<lparr> faceCount := 1, checkStatus := Success, readyCalls := readyCalls cc @ [True] \<rparr>
            else cc\<lparr> faceCount := 0 \<rparr>) \<and>
         (\<forall>r g b. skinTone r g b \<longleftrightarrow>
            r > 95 \<and> g > 40 \<and> b > 20 \<and> max r (max g b) - min r (min g b) > 15 \<and>
            \<bar>r - g\<bar> > 15 \<and> r > g \<and> r > b)"
proof -
  have a: "facePresentIn (frame video) \<longleftrightarrow> skinFraction (frame video) > 0.02"
    by (simp add: facePresentIn_def skinRatio_fraction[OF assms(6)])
  have b: "facePresentIn (imageData shown) \<longleftrightarrow> skinFraction (imageData shown) > 0.02"
    by (simp add: facePresentIn_def skinRatio_fraction[OF assms(7)])
  have 1: "\<exists>st'. performClientSideDetection lastBlink now st = Inr st' \<and>
            (faceDetected st' \<longleftrightarrow> skinFraction (frame video) > 0.02)"
    using assms(1-5) a by (simp add: performClientSideDetection_def Let_def drawFrame_def)
  have 2: "checkClientSideDetection (Some shown) (Some video) cc =
           (if skinFraction (imageData shown) > 0.02
            then cc\<lparr> faceCount := 1, checkStatus := Success, readyCalls := readyCalls cc @ [True] \<rparr>
            else cc\<lparr> faceCount := 0 \<rparr>)"
    using assms(8) b by (simp add: checkClientSideDetection_def)
  show ?thesis using 1 2 by (simp add: skinTone_def)
qed

lemma sampleFrame_fraction: "skinFraction sampleFrame = 1 / 2"
  by (simp add: skinFraction_def sampleFrame_def skinTone_def)

lemma sampleFrame_present: "facePresentIn sampleFrame"
proof -
  have "length sampleFrame = 16" by (simp add: sampleFrame_def)
  then have "4 dvd length sampleFrame" by simp
  from skinRatio_fraction[OF this] show ?thesis
    by (simp add: facePresentIn_def sampleFrame_fraction)
qed

theorem clientSideDetection_skin_fraction_witness:
  "faceDetected (projr (performClientSideDetection 0 5000 sampleCamera)) \<and>
   faceCount (checkClientSideDetection (Some (drawFrame sampleVideo sampleCanvas)) (Some sampleVideo) sampleCheck) = 1 \<and>
   skinTone 200 120 90"
proof -
  have v: "videoRef sampleCamera = Some sampleVideo" "canvasRef sampleCamera = Some sampleCanvas"
    by (simp_all add: sampleCamera_def)
  have c: "hasContext sampleCanvas" "videoWidth sampleVideo \<noteq> 0" "videoHeight sampleVideo \<noteq> 0"
    by (simp_all add: sampleCanvas_def sampleVideo_def)
  have i: "imageData (drawFrame sampleVideo sampleCanvas) = sampleFrame" "frame sampleVideo = sampleFrame"
    by (simp_all add: drawFrame_def sampleVideo_def)
  have n: "length sampleFrame = 16" by (simp add: sampleFrame_def)
  have f: "4 dvd length (frame sampleVideo)"
    "4 dvd length (imageData (drawFrame sampleVideo sampleCanvas))"
    "hasContext (drawFrame sampleVideo sampleCanvas)"
    by (simp_all add: i n) (simp add: drawFrame_def sampleCanvas_def)
  show ?thesis
    using clientSideDetection_skin_fraction[OF v c f, of 0 5000 sampleCheck]
    by (auto simp: i sampleFrame_fraction)
qed


lemma detectFace_failure:
  assumes "videoRef st = Some video" and "canvasRef st = Some canvas"
    and "hasContext canvas" and "videoWidth video \<noteq> 0" and "videoHeight video \<noteq> 0"
    and "reply = DetectRejected \<or> reply = DetectInvalidJson \<or> (\<exists>d. reply = DetectJson d \<and> \<not> success d)"
  shows "\<exists>st'. detectFace True True lastBlink reply now st = Inr st' \<and>
           (faceDetected st' \<longleftrightarrow> facePresentIn (frame video)) \<and>
           cameraError st' = cameraError st \<and> \<not> backendDetectionEnabled st' \<and>
           requestsSent st' = requestsSent st + 1 \<and> faceDetectionRef st' = faceDetectionRef st"
proof -
  have p: "performBackendDetection True reply st =
        (None, st\<lparr> canvasRef := Some (drawFrame video canvas), requestsSent := requestsSent st + 1,
                    backendDetectionEnabled := False \<rparr>)"
    using assms by (auto simp: performBackendDetection_def Let_def)
  show ?thesis
    using assms(1-5)
    by (simp add: detectFace_def p performClientSideDetection_def drawFrame_def Let_def)
qed

text \<open>
  The detection callback as written, installed from a render in which the camera is
  active and backend detection enabled: the hook then holds an interval of period 1000 ms;
  each firing sends one request to the detection endpoint, and when that request fails
  (the fetch rejects, the body is not JSON, or the reply is not successful) the firing
  still returns, with \<open>faceDetected\<close> set by the local skin-tone heuristic and the error
  field untouched. After \<open>stopCamera\<close> a firing does nothing.
\<close>

theorem detection_polls_and_falls_back:
  assumes "videoRef st0 = Some video" and "canvasRef st0 = Some canvas"
    and "hasContext canvas" and "videoWidth video \<noteq> 0" and "videoHeight video \<noteq> 0"
    and "reply = DetectRejected \<or> reply = DetectInvalidJson \<or> (\<exists>d. reply = DetectJson d \<and> \<not> success d)"
    and "st = startFaceDetection True True lastBlink st0"
  shows "map_option period (faceDetectionRef st) = Some 1000 \<and>
         (\<exists>st'. detectionTick reply now st = Inr st' \<and>
            requestsSent st' = requestsSent st + 1 \<and>
            (faceDetected st' \<longleftrightarrow> facePresentIn (frame video)) \<and>
            cameraError st' = cameraError st \<and>
            faceDetectionRef st' = faceDetectionRef st) \<and>
         detectionTick reply now (stopCamera st) = Inr (stopCamera st)"
proof -
  have r: "faceDetectionRef st = Some \<lparr> period = 1000, capturedActive = True,
             capturedBackendEnabled = True, capturedLastBlink = lastBlink \<rparr>"
    and v: "videoRef st = Some video" and c: "canvasRef st = Some canvas"
    using assms(1,2) by (simp_all add: assms(7) startFaceDetection_def)
  from detectFace_failure[OF v c assms(3-6), of lastBlink now]
  have "\<exists>st'. detectionTick reply now st = Inr st' \<and>
            requestsSent st' = requestsSent st + 1 \<and>
            (faceDetected st' \<longleftrightarrow> facePresentIn (frame video)) \<and>
            cameraError st' = cameraError st \<and>
            faceDetectionRef st' = faceDetectionRef st"
    by (auto simp: detectionTick_def r)
  moreover have "detectionTick reply now (stopCamera st) = Inr (stopCamera st)"
    by (simp add: detectionTick_def stopCamera_def)
  ultimately show ?thesis by (simp add: r)
qed

theorem detection_polls_and_falls_back_witness:
  "map_option period (faceDetectionRef (startFaceDetection True True 0 sampleCamera)) = Some 1000 \<and>
   faceDetected (projr (detectionTick DetectRejected 5000 (startFaceDetection True True 0 sampleCamera))) \<and>
   cameraError (projr (detectionTick DetectRejected 5000 (startFaceDetection True True 0 sampleCamera))) = None"
proof -
  have v: "videoRef sampleCamera = Some sampleVideo" "canvasRef sampleCamera = Some sampleCanvas"
    by (simp_all add: sampleCamera_def)
  have c: "hasContext sampleCanvas" "videoWidth sampleVideo \<noteq> 0" "videoHeight sampleVideo \<noteq> 0"
    by (simp_all add: sampleCanvas_def sampleVideo_def)
  have f: "facePresentIn (frame sampleVideo)"
    using sampleFrame_present by (simp add: sampleVideo_def)
  have e: "cameraError (startFaceDetection True True 0 sampleCamera) = None"
    by (simp add: startFaceDetection_def sampleCamera_def)
  show ?thesis
    using detection_polls_and_falls_back[OF v c _ refl, of DetectRejected 0 5000] f e
    by auto
qed

lemma detectFace_inactive: "detectFace False backendEnabled lastBlink reply now st = Inr st"
  by (simp add: detectFace_def)

lemma startCameraTimer_ref:
  "faceDetectionRef (startCameraTimer st) =
     (if videoRef st = None \<or> canvasRef st = None then faceDetectionRef st
      else Some \<lparr> period = 1000, capturedActive = False, capturedBackendEnabled = True,
                    capturedLastBlink = 0 \<rparr>)"
  by (simp add: startCameraTimer_def startFaceDetection_def)

text \<open>
  C6 fails on the code. With the camera granted and the video playing, \<open>startCamera\<close>
  makes the camera active and its timer installs the interval of 1000 ms; but the
  installed callback is the one of the first render, where \<open>isActive\<close> is false, so every
  firing returns at the first test of \<open>detectFace\<close>: whatever the endpoint would reply,
  no request is sent, no local detection runs and the state stays as it is.
\<close>

theorem wrapper_detection_never_polls:
  assumes "videoRef st = Some video" and "canvasRef st = Some canvas"
    and "st1 = startCameraTimer (snd (startCamera (AccessGranted True) st))"
  shows "fst (startCamera (AccessGranted True) st) = None \<and> isActive st1 \<and>
         map_option period (faceDetectionRef st1) = Some 1000 \<and>
         detectionTick reply now st1 = Inr st1 \<and>
         requestsSent st1 = requestsSent st \<and> faceDetected st1 = faceDetected st"
proof -
  have a: "snd (startCamera (AccessGranted True) st) = st\<lparr> cameraError := None, isActive := True \<rparr>"
    and n: "fst (startCamera (AccessGranted True) st) = None"
    by (simp_all add: startCamera_def assms(1))
  have r: "faceDetectionRef st1 =
      Some \<lparr> period = 1000, capturedActive = False, capturedBackendEnabled = True,
             capturedLastBlink = 0 \<rparr>"
    unfolding assms(3) a by (simp add: startCameraTimer_ref assms(1,2))
  have t: "detectionTick reply now st1 = Inr st1"
    by (simp add: detectionTick_def r detectFace_inactive)
  have f: "isActive st1" "requestsSent st1 = requestsSent st" "faceDetected st1 = faceDetected st"
    unfolding assms(3) a
    by (simp_all add: startCameraTimer_def startFaceDetection_def assms(1,2))
  show ?thesis using n r t f by simp
qed

theorem wrapper_detection_never_polls_witness:
  "isActive (startCameraTimer (snd (startCamera (AccessGranted True) mountedCamera))) \<and>
   facePresentIn (frame sampleVideo) \<and>
   detectionTick DetectRejected 5000 (startCameraTimer (snd (startCamera (AccessGranted True) mountedCamera))) =
     Inr (startCameraTimer (snd (startCamera (AccessGranted True) mountedCamera))) \<and>
   requestsSent (startCameraTimer (snd (startCamera (AccessGranted True) mountedCamera))) = 0 \<and>
   \<not> faceDetected (startCameraTimer (snd (startCamera (AccessGranted True) mountedCamera)))"
proof -
  have v: "videoRef mountedCamera = Some sampleVideo" "canvasRef mountedCamera = Some sampleCanvas"
    by (simp_all add: mountedCamera_def)
  have z: "requestsSent mountedCamera = 0" "\<not> faceDetected mountedCamera"
    by (simp_all add: mountedCamera_def)
  have p: "facePresentIn (frame sampleVideo)"
    using sampleFrame_present by (simp add: sampleVideo_def)
  show ?thesis
    using wrapper_detection_never_polls[OF v refl, of DetectRejected 5000] z p by simp
qed

section \<open>The polling of the analytics panel\<close>

lemma filter_update_off:
  assumes "i < length xs" and "fst (xs ! i)"
  shows "length (filter fst (xs[i := (False, p)])) = length (filter fst xs) - 1"
  using assms
proof (induction xs arbitrary: i)
  case Nil
  then show ?case by simp
next
  case (Cons x xs)
  show ?case
  proof (cases i)
    case 0
    with Cons.prems show ?thesis by simp
  next
    case (Suc j)
    with Cons.prems have j: "j < length xs" "fst (xs ! j)" by simp_all
    then have "filter fst xs \<noteq> []" by (metis filter_empty_conv nth_mem)
    then have "0 < length (filter fst xs)" by simp
    with Cons.IH[OF j] Suc show ?thesis by simp
  qed
qed

lemma runCleanup_inv:
  assumes "pollingInv st"
  shows "installedIntervals (runCleanup st) = [] \<and> cleanup (runCleanup st) = None \<and>
         fetchesIssued (runCleanup st) = fetchesIssued st \<and> lastDeps (runCleanup st) = lastDeps st"
proof (cases "cleanup st")
  case None
  with assms show ?thesis by (simp add: runCleanup_def pollingInv_def)
next
  case (Some i)
  with assms have v: "panelVisible st" and i: "i < length (intervals st)"
    and a: "intervals st ! i = (True, 5000)" and one: "installedIntervals st = [5000]"
    by (simp_all add: pollingInv_def)
  have "length (filter fst ((intervals st)[i := (False, 5000)])) = length (filter fst (intervals st)) - 1"
    using filter_update_off[OF i, of 5000] a by simp
  also have "length (filter fst (intervals st)) = 1"
    using one by (metis installedIntervals_def length_map length_Cons list.size(3) One_nat_def)
  finally have "filter fst ((intervals st)[i := (False, 5000)]) = []" by simp
  then show ?thesis using Some a by (simp add: runCleanup_def installedIntervals_def)
qed

lemma pollingInv_frame:
  assumes "intervals st' = intervals st" and "cleanup st' = cleanup st" and "lastDeps st' = lastDeps st"
  shows "pollingInv st' = pollingInv st" and "panelVisible st' = panelVisible st"
proof -
  show v: "panelVisible st' = panelVisible st" by (simp add: panelVisible_def assms(3))
  show "pollingInv st' = pollingInv st"
    unfolding pollingInv_def installedIntervals_def v assms(1,2) ..
qed

lemma timer_frame:
  "intervals (uiStep st (TimerFires i)) = intervals st \<and>
   cleanup (uiStep st (TimerFires i)) = cleanup st \<and>
   lastDeps (uiStep st (TimerFires i)) = lastDeps st"
  by simp

lemma response_frame:
  "intervals (uiStep st (ResponseArrives m r)) = intervals st \<and>
   cleanup (uiStep st (ResponseArrives m r)) = cleanup st \<and>
   lastDeps (uiStep st (ResponseArrives m r)) = lastDeps st \<and>
   fetchesIssued (uiStep st (ResponseArrives m r)) = fetchesIssued st"
  by (simp add: fetchAnalyticsDone_def split: analytics_reply.splits)

lemma uiStep_inv:
  assumes "pollingInv st"
  shows "pollingInv (uiStep st e)"
proof (cases e)
  case (Render sessionId isVisible)
  show ?thesis
  proof (cases "lastDeps st = Some (sessionId, isVisible)")
    case True
    with assms Render show ?thesis by simp
  next
    case False
    from runCleanup_inv[OF assms] have
      r: "installedIntervals (runCleanup st) = []" "cleanup (runCleanup st) = None" by simp_all
    from r(1) have f: "filter fst (intervals (runCleanup st)) = []"
      by (simp add: installedIntervals_def)
    show ?thesis using False Render r f
      by (simp add: pollingInv_def analyticsEffect_def installedIntervals_def panelVisible_def nth_append)
  qed
next
  case Unmount
  from runCleanup_inv[OF assms] show ?thesis using Unmount
    by (simp add: pollingInv_def installedIntervals_def panelVisible_def)
next
  case (TimerFires i)
  show ?thesis unfolding TimerFires
    using assms pollingInv_frame(1)[of "uiStep st (TimerFires i)" st] timer_frame[of st i] by blast
next
  case (ResponseArrives metrics reply)
  show ?thesis unfolding ResponseArrives
    using assms pollingInv_frame(1)[of "uiStep st (ResponseArrives metrics reply)" st]
      response_frame[of st metrics reply] by blast
qed

lemma uiRun_inv: "pollingInv st \<Longrightarrow> pollingInv (uiRun st es)"
  by (induction es arbitrary: st) (simp_all add: uiStep_inv)

lemma initial_inv: "pollingInv analyticsInitial"
  by (simp add: pollingInv_def analyticsInitial_def installedIntervals_def panelVisible_def)

lemma fetch_only_visible:
  assumes "pollingInv st" and "fetchesIssued (uiStep st e) \<noteq> fetchesIssued st"
  shows "panelVisible (uiStep st e)"
proof (cases e)
  case (Render sessionId isVisible)
  with assms(2) runCleanup_inv[OF assms(1)] show ?thesis
    by (auto simp: analyticsEffect_def panelVisible_def split: if_splits)
next
  case Unmount
  with assms(2) runCleanup_inv[OF assms(1)] show ?thesis by simp
next
  case (TimerFires i)
  with assms(2) have a: "i < length (intervals st)" "fst (intervals st ! i)"
    by (auto split: if_splits)
  then have "filter fst (intervals st) \<noteq> []" by (metis filter_empty_conv nth_mem)
  with assms(1) have "panelVisible st"
    by (cases "panelVisible st") (simp_all add: pollingInv_def installedIntervals_def)
  then show ?thesis unfolding TimerFires
    using pollingInv_frame(2)[of "uiStep st (TimerFires i)" st] timer_frame[of st i] by blast
next
  case (ResponseArrives metrics reply)
  with assms(2) response_frame[of st metrics reply] show ?thesis by blast
qed

text \<open>
  C7. In every state the component reaches from its first mount, the installed polling
  intervals are exactly one interval of 5000 ms while the panel is visible and none
  otherwise; a step issues a fetch only if the panel is visible after it; while visible,
  the firing of the installed interval issues one fetch; a render with \<open>isVisible\<close>
  false installs no interval and issues no fetch; the unmount leaves no interval.
\<close>

theorem analytics_polls_while_visible:
  assumes "st = uiRun analyticsInitial es"
  shows "installedIntervals st = (if panelVisible st then [5000] else []) \<and>
         (fetchesIssued (uiStep st e) = fetchesIssued st \<or> panelVisible (uiStep st e)) \<and>
         (panelVisible st \<longrightarrow>
            (\<exists>i. cleanup st = Some i \<and>
                 fetchesIssued (uiStep st (TimerFires i)) = fetchesIssued st + 1)) \<and>
         installedIntervals (uiStep st (Render sessionId False)) = [] \<and>
         fetchesIssued (uiStep st (Render sessionId False)) = fetchesIssued st \<and>
         installedIntervals (uiStep st Unmount) = []"
proof -
  have inv: "pollingInv st" unfolding assms by (rule uiRun_inv[OF initial_inv])
  have 1: "installedIntervals st = (if panelVisible st then [5000] else [])"
    using inv by (simp add: pollingInv_def)
  have 2: "fetchesIssued (uiStep st e) = fetchesIssued st \<or> panelVisible (uiStep st e)"
    using fetch_only_visible[OF inv, of e] by blast
  have 3: "panelVisible st \<longrightarrow>
            (\<exists>i. cleanup st = Some i \<and>
                 fetchesIssued (uiStep st (TimerFires i)) = fetchesIssued st + 1)"
  proof (cases "cleanup st")
    case None
    with inv show ?thesis by (simp add: pollingInv_def)
  next
    case (Some i)
    with inv show ?thesis by (simp add: pollingInv_def)
  qed
  have nv: "\<not> panelVisible (uiStep st (Render sessionId False))"
    by (simp add: panelVisible_def)
  have 4: "installedIntervals (uiStep st (Render sessionId False)) = []"
    using uiStep_inv[OF inv, of "Render sessionId False"] nv
    by (simp add: pollingInv_def del: uiStep.simps)
  have 5: "fetchesIssued (uiStep st (Render sessionId False)) = fetchesIssued st"
    using fetch_only_visible[OF inv, of "Render sessionId False"] nv by blast
  have nu: "\<not> panelVisible (uiStep st Unmount)" by (simp add: panelVisible_def)
  have 6: "installedIntervals (uiStep st Unmount) = []"
    using uiStep_inv[OF inv, of Unmount] nu by (simp add: pollingInv_def del: uiStep.simps)
  show ?thesis using 1 2 3 4 5 6 by blast
qed

lemma sampleEvents_run:
  "panelVisible (uiRun analyticsInitial sampleEvents) \<and>
   intervals (uiRun analyticsInitial sampleEvents) = [(False, 5000), (True, 5000)] \<and>
   fetchesIssued (uiRun analyticsInitial sampleEvents) = 3"
  by (simp add: sampleEvents_def analyticsInitial_def analyticsEffect_def runCleanup_def panelVisible_def)

theorem analytics_polls_while_visible_witness:
  "panelVisible (uiRun analyticsInitial sampleEvents) \<and>
   installedIntervals (uiRun analyticsInitial sampleEvents) = [5000] \<and>
   installedIntervals (uiStep (uiRun analyticsInitial sampleEvents) Unmount) = []"
  using analytics_polls_while_visible[OF refl, of sampleEvents] sampleEvents_run
  by simp

section \<open>Question acquisition on failure\<close>

lemma showNat_digits:
  "showNat 0 = ''0''" "showNat (Suc 0) = ''1''" "showNat (Suc (Suc 0)) = ''2''"
  "showNat (Suc (Suc (Suc 0))) = ''3''" "showNat (Suc (Suc (Suc (Suc 0)))) = ''4''"
  "showNat (Suc (Suc (Suc (Suc (Suc 0))))) = ''5''"
  by code_simp+

lemma length_fallbackTexts: "length (fallbackTexts jd) = 6"
  by (simp add: fallbackTexts_def)

lemma upt6: "[0..<6] = [0, 1, 2, 3, 4, 5]"
  by (simp add: upt_rec)

lemma fallback_shape:
  "length (generateFallbackQuestions jd) = 6 \<and>
   map q_text (generateFallbackQuestions jd) = fallbackTexts jd \<and>
   map q_id (generateFallbackQuestions jd) =
     [''fallback-0'', ''fallback-1'', ''fallback-2'', ''fallback-3'', ''fallback-4'', ''fallback-5''] \<and>
   map q_type (generateFallbackQuestions jd) = replicate 6 (questionType jd)"
proof -
  obtain a b c d e f where t: "fallbackTexts jd = [a, b, c, d, e, f]"
    by (cases "jd_type jd = ''technical''") (simp_all add: fallbackTexts_def)
  have "map q_type (generateFallbackQuestions jd) = replicate 6 (questionType jd)"
    by (simp add: generateFallbackQuestions_def t upt6 numeral_eq_Suc)
  then show ?thesis
    by (simp add: generateFallbackQuestions_def t upt6 showNat_digits)
qed

lemma backend_failure:
  assumes "requestFailed storageOk reply"
  shows "generateQuestionsFromBackend storageOk reply now jd = generateFallbackQuestions jd"
  using assms
  by (auto simp: requestFailed_def generateQuestionsFromBackend_def split: backend_reply.splits)

lemma generateQuestions_failure:
  assumes "requestFailed True reply"
  shows "fst (generateQuestions te reply now jdText st) = [] \<and>
         gq_error (snd (generateQuestions te reply now jdText st)) \<noteq> None"
  using assms
  by (auto simp: requestFailed_def generateQuestions_def Let_def split: backend_reply.splits)

text \<open>
  C5, as amended. Whenever the request of \<open>generateQuestionsFromBackend\<close> fails (the
  stored data cannot be parsed, the fetch rejects, the body is not JSON, the reply is not
  ok or carries no questions), it returns the six fallback questions built from the job
  description, with the ids fallback-0 to fallback-5 and the type technical or behavioral
  of the job description: never an empty list, and never an exception, the function being
  total. The hook \<open>generateQuestions\<close> of \<open>useGeneratedQuestions\<close> instead returns the
  empty list on such a failure and records an error message.
\<close>

theorem acquisition_falls_back:
  assumes "requestFailed storageOk reply"
  shows "generateQuestionsFromBackend storageOk reply now jd = generateFallbackQuestions jd \<and>
         length (generateFallbackQuestions jd) = 6 \<and>
         generateFallbackQuestions jd \<noteq> [] \<and>
         map q_text (generateFallbackQuestions jd) = fallbackTexts jd \<and>
         map q_id (generateFallbackQuestions jd) =
           [''fallback-0'', ''fallback-1'', ''fallback-2'', ''fallback-3'', ''fallback-4'', ''fallback-5''] \<and>
         map q_type (generateFallbackQuestions jd) =
           replicate 6 (if jd_type jd = ''technical'' then ''technical'' else ''behavioral'') \<and>
         (storageOk \<longrightarrow>
            fst (generateQuestions te reply now jdText st) = [] \<and>
            gq_error (snd (generateQuestions te reply now jdText st)) \<noteq> None)"
proof -
  have "generateFallbackQuestions jd \<noteq> []" using fallback_shape[of jd] by auto
  moreover have "storageOk \<longrightarrow>
            fst (generateQuestions te reply now jdText st) = [] \<and>
            gq_error (snd (generateQuestions te reply now jdText st)) \<noteq> None"
    using generateQuestions_failure[of reply te now jdText st] assms
    by (auto simp: requestFailed_def)
  ultimately show ?thesis
    using backend_failure[OF assms, of now jd] fallback_shape[of jd]
    by (simp add: questionType_def)
qed

theorem acquisition_falls_back_witness:
  "requestFailed True (NetworkError ''Failed to fetch'') \<and>
   length (generateQuestionsFromBackend True (NetworkError ''Failed to fetch'') 1000 sampleJob) = 6 \<and>
   map q_type (generateQuestionsFromBackend True (NetworkError ''Failed to fetch'') 1000 sampleJob) =
     replicate 6 ''technical''"
proof -
  have f: "requestFailed True (NetworkError ''Failed to fetch'')" by (simp add: requestFailed_def)
  show ?thesis
    using acquisition_falls_back[OF f, of 1000 sampleJob] f by (simp add: sampleJob_def)
qed

text \<open>
  C5 as stated fails for \<open>generateQuestions\<close>: when the fetch rejects, the list it
  returns is empty.
\<close>

theorem generateQuestions_failure_empty:
  "fst (generateQuestions ''undefined is not an object'' (NetworkError ''Failed to fetch'') 1000
          ''Backend engineer, Python'' sampleGenerated) = []"
  by (simp add: generateQuestions_def)

section \<open>Recordings in flight\<close>

lemma count_update_off:
  assumes "i < length xs" and "xs ! i = RecRecording"
  shows "length (filter (\<lambda>r. r = RecRecording) (xs[i := RecInactive])) =
         length (filter (\<lambda>r. r = RecRecording) xs) - 1"
  using assms
proof (induction xs arbitrary: i)
  case Nil
  then show ?case by simp
next
  case (Cons x xs)
  show ?case
  proof (cases i)
    case 0
    with Cons.prems show ?thesis by simp
  next
    case (Suc j)
    with Cons.prems have j: "j < length xs" "xs ! j = RecRecording" by simp_all
    then have "xs ! j \<in> set (filter (\<lambda>r. r = RecRecording) xs)"
      using nth_mem[of j xs] by simp
    then have "0 < length (filter (\<lambda>r. r = RecRecording) xs)" by (rule length_pos_if_in_set)
    with Cons.IH[OF j] Suc show ?thesis by simp
  qed
qed

lemma none_recording:
  assumes "recordingCount st = 0" and "i < length (recorders st)"
  shows "recorders st ! i \<noteq> RecRecording"
proof
  assume a: "recorders st ! i = RecRecording"
  then have "recorders st ! i \<in> set (filter (\<lambda>r. r = RecRecording) (recorders st))"
    using nth_mem[OF assms(2)] by simp
  then have "0 < length (filter (\<lambda>r. r = RecRecording) (recorders st))"
    by (rule length_pos_if_in_set)
  with assms(1) show False by (simp add: recordingCount_def)
qed

lemma startListening_facts:
  "recordingCount (startListening st) = recordingCount st"
  "pendingMic (startListening st) = Suc (pendingMic st)"
  "isRecording (startListening st) = isRecording st"
  by (simp_all add: startListening_def recordingCount_def)

lemma startListening_inv:
  assumes "recorderInv st" and "\<not> isRecording st" and "pendingMic st = 0"
  shows "recorderInv (startListening st)"
  using assms by (simp add: recorderInv_def startListening_def recordingCount_def)

lemma startListeningResumed_facts:
  assumes "pendingMic st \<noteq> 0"
  shows "recordingCount (startListeningResumed w True st) = recordingCount st + 1"
    and "isRecording (startListeningResumed w True st)"
    and "pendingMic (startListeningResumed w True st) = pendingMic st - 1"
  using assms by (simp_all add: startListeningResumed_def recordingCount_def Let_def)

lemma startListeningResumed_inv:
  assumes "recorderInv st"
  shows "recorderInv (startListeningResumed w micOk st)"
proof (cases "pendingMic st = 0")
  case True
  with assms show ?thesis by (simp add: startListeningResumed_def)
next
  case False
  with assms have n: "\<not> isRecording st" by (auto simp: recorderInv_def)
  with assms False have p: "pendingMic st = 1" and c: "recordingCount st = 0"
    by (simp_all add: recorderInv_def)
  show ?thesis
    using p n c by (simp add: recorderInv_def startListeningResumed_def recordingCount_def Let_def)
qed

text \<open>
  \<open>stopListening\<close> through the callback of any render: the invariant is kept, and when
  that render had \<open>isRecording\<close> true no recorder is recording afterwards.
\<close>

lemma stopListening_inv:
  assumes "recorderInv st"
  shows "recorderInv (step w snap st StopListening) \<and>
         (isRecording snap \<longrightarrow> recordingCount (step w snap st StopListening) = 0 \<and>
                                 \<not> isRecording (step w snap st StopListening)) \<and>
         pendingMic (step w snap st StopListening) = pendingMic st"
proof (cases "isRecording st")
  case False
  with assms have c: "recordingCount st = 0" by (simp add: recorderInv_def)
  have "stopListening snap st = Inr st \<or> stopListening snap st = Inl InvalidStateError"
    using none_recording[OF c] by (auto simp: stopListening_def split: option.splits)
  then have "step w snap st StopListening = st" by auto
  with assms c False show ?thesis by simp
next
  case True
  with assms obtain i where r: "mediaRecorderRef st = Some i" and i: "i < length (recorders st)"
    and a: "recorders st ! i = RecRecording" and c: "recordingCount st = 1"
    and p: "pendingMic st = 0"
    by (auto simp: recorderInv_def split: option.splits)
  show ?thesis
  proof (cases "isRecording snap")
    case False
    then have "step w snap st StopListening = st" using r by (simp add: stopListening_def)
    with assms False show ?thesis by simp
  next
    case s: True
    have "length (filter (\<lambda>r. r = RecRecording) ((recorders st)[i := RecInactive])) = 0"
      using count_update_off[OF i a] c by (simp add: recordingCount_def)
    then show ?thesis using s r i a p
      by (simp add: stopListening_def recorderInv_def recordingCount_def)
  qed
qed

text \<open>\<open>stopListening\<close> through the callback of the latest render returns.\<close>

lemma stopListening_fresh:
  assumes "recorderInv st"
  shows "\<exists>st'. stopListening st st = Inr st' \<and> recordingCount st' = 0 \<and> \<not> isRecording st'"
proof (cases "isRecording st")
  case False
  with assms have c: "recordingCount st = 0" by (simp add: recorderInv_def)
  from False have "stopListening st st = Inr st" by (simp add: stopListening_def split: option.splits)
  with c False show ?thesis by simp
next
  case True
  with assms obtain i where r: "mediaRecorderRef st = Some i" and i: "i < length (recorders st)"
    and a: "recorders st ! i = RecRecording" and c: "recordingCount st = 1"
    by (auto simp: recorderInv_def split: option.splits)
  have "length (filter (\<lambda>r. r = RecRecording) ((recorders st)[i := RecInactive])) = 0"
    using count_update_off[OF i a] c by (simp add: recordingCount_def)
  then show ?thesis using True r i a
    by (simp add: stopListening_def recordingCount_def)
qed

lemma recorders_frame:
  assumes "x \<noteq> StartListening" and "\<forall>b. x \<noteq> MicrophoneSettles b" and "x \<noteq> StopListening"
  shows "recorders (step w snap st x) = recorders st \<and>
         isRecording (step w snap st x) = isRecording st \<and>
         mediaRecorderRef (step w snap st x) = mediaRecorderRef st \<and>
         pendingMic (step w snap st x) = pendingMic st"
proof (cases x)
  case (SubmitResponse rx r1 r2 r3 qid ans dur blob)
  then show ?thesis
    by (auto simp: submitResponse_def split: option.splits sum.splits)
next
  case (StartInterview a b c d e f g)
  then show ?thesis by (simp add: startInterview_def Let_def)
next
  case NextQuestion
  then show ?thesis by (simp add: nextQuestion_def split: option.splits)
next
  case (StopInterview a b)
  then show ?thesis by (simp add: stopInterview_def speak_def Let_def split: option.splits)
next
  case (CompleteInterview a b c d)
  then show ?thesis by (simp add: completeInterview_def speak_def Let_def split: option.splits)
next
  case (Speak t)
  then show ?thesis by (simp add: speak_def)
next
  case UtteranceEnd
  then show ?thesis by (simp add: utteranceEnd_def)
next
  case StartListening
  with assms show ?thesis by simp
next
  case (MicrophoneSettles b)
  with assms(2) show ?thesis by blast
next
  case StopListening
  with assms show ?thesis by simp
next
  case (RecognitionResult t)
  then show ?thesis by (simp add: recognitionResult_def)
next
  case RecorderStopped
  then show ?thesis by (simp add: recorderStopped_def)
qed

lemma recorderInv_frame:
  assumes "recorders st' = recorders st" and "isRecording st' = isRecording st"
    and "mediaRecorderRef st' = mediaRecorderRef st" and "pendingMic st' = pendingMic st"
  shows "recorderInv st' = recorderInv st"
  unfolding recorderInv_def recordingCount_def assms ..

lemma step_inv:
  assumes "recorderInv st"
    and "if startsListening x then \<not> isRecording st \<and> pendingMic st = 0 else True"
  shows "recorderInv (step w snap st x)"
proof (cases "x = StartListening")
  case True
  with assms show ?thesis by (simp add: startListening_inv)
next
  case n1: False
  show ?thesis
  proof (cases "\<exists>b. x = MicrophoneSettles b")
    case True
    then obtain b where x: "x = MicrophoneSettles b" by blast
    show ?thesis unfolding x using startListeningResumed_inv[OF assms(1)] by simp
  next
    case n2: False
    show ?thesis
    proof (cases "x = StopListening")
      case True
      from stopListening_inv[OF assms(1)] show ?thesis unfolding True by blast
    next
      case n3: False
      from n2 have "\<forall>b. x \<noteq> MicrophoneSettles b" by blast
      from recorders_frame[OF n1 this n3, of w snap st] assms(1) show ?thesis
        using recorderInv_frame[of "step w snap st x" st] by blast
    qed
  qed
qed

lemma renderOf_mem: "hist \<noteq> [] \<Longrightarrow> renderOf hist k \<in> set hist"
  by (cases "k < length hist") (simp_all add: renderOf_def)

lemma runCalls_nonempty: "hist \<noteq> [] \<Longrightarrow> runCalls w hist cs \<noteq> []"
proof (induction cs arbitrary: hist)
  case Nil
  then show ?case by simp
next
  case (Cons c cs)
  obtain k x where c: "c = (k, x)" by (cases c)
  have "hist @ [step w (renderOf hist k) (last hist) x] \<noteq> []" by simp
  from Cons.IH[OF this] show ?case unfolding c by simp
qed

lemma runCalls_inv:
  assumes "\<forall>s \<in> set hist. recorderInv s" and "hist \<noteq> []" and "disciplined w hist cs"
  shows "\<forall>s \<in> set (runCalls w hist cs). recorderInv s"
  using assms
proof (induction cs arbitrary: hist)
  case Nil
  then show ?case by simp
next
  case (Cons c cs)
  obtain k x where c: "c = (k, x)" by (cases c)
  let ?s = "step w (renderOf hist k) (last hist) x"
  from Cons.prems(1,2) have l: "recorderInv (last hist)" by simp
  from Cons.prems(3) have g: "if startsListening x then \<not> isRecording (last hist) \<and> pendingMic (last hist) = 0 else True"
    and d: "disciplined w (hist @ [?s]) cs" unfolding c by simp_all
  have "recorderInv ?s" by (rule step_inv[OF l g])
  with Cons.prems(1) have a: "\<forall>s \<in> set (hist @ [?s]). recorderInv s" by simp
  from Cons.IH[OF a _ d] show ?case unfolding c by simp
qed

lemma initial_recorderInv: "recorderInv initialState"
  by (simp add: recorderInv_def initialState_def recordingCount_def)

text \<open>
  C4, as amended. Take a run from the initial state, through the callbacks of any renders,
  in which \<open>startListening\<close> is only called while \<open>isRecording\<close> is false and no earlier
  call of it is still waiting for the microphone. In every state of such a run at most one
  MediaRecorder is recording, and exactly one while \<open>isRecording\<close> is true;
  \<open>stopListening\<close> through the callback of the latest render returns and leaves no
  recorder recording, and so does it through the callback of any render that had
  \<open>isRecording\<close> true. \<open>startListening\<close> itself has no guard: a call whose microphone is
  granted always starts one more recorder.
\<close>

theorem disciplined_one_recording:
  assumes "disciplined w [initialState] calls"
    and "hist = runCalls w [initialState] calls" and "st \<in> set hist"
  shows "recordingCount st \<le> 1 \<and>
         (isRecording st \<longleftrightarrow> recordingCount st = 1) \<and>
         (\<exists>st'. stopListening st st = Inr st' \<and> recordingCount st' = 0 \<and> \<not> isRecording st') \<and>
         (isRecording snap \<longrightarrow> recordingCount (step w snap st StopListening) = 0 \<and>
                                 \<not> isRecording (step w snap st StopListening)) \<and>
         recordingCount (startListeningResumed w True (startListening st)) = recordingCount st + 1"
proof -
  have "\<forall>s \<in> set [initialState]. recorderInv s" by (simp add: initial_recorderInv)
  from runCalls_inv[OF this _ assms(1)] assms(2,3) have inv: "recorderInv st" by simp
  from inv have 1: "recordingCount st \<le> 1" "isRecording st \<longleftrightarrow> recordingCount st = 1"
    by (simp_all add: recorderInv_def)
  have 5: "recordingCount (startListeningResumed w True (startListening st)) = recordingCount st + 1"
    by (simp add: startListeningResumed_facts startListening_facts)
  show ?thesis
    using 1 5 stopListening_fresh[OF inv] stopListening_inv[OF inv, of w snap] by blast
qed

lemma initial_idle: "\<not> isRecording initialState" "pendingMic initialState = 0"
  by (simp_all add: initialState_def)

lemma sampleListening_facts:
  "disciplined sampleWindow [initialState] sampleListening \<and>
   isRecording (last (runCalls sampleWindow [initialState] sampleListening))"
proof -
  define s1 where "s1 = step sampleWindow initialState initialState StartListening"
  define s2 where "s2 = step sampleWindow s1 s1 (MicrophoneSettles True)"
  define s3 where "s3 = step sampleWindow s2 s2 StopListening"
  define s4 where "s4 = step sampleWindow s3 s3 StartListening"
  define s5 where "s5 = step sampleWindow s4 s4 (MicrophoneSettles True)"
  have i1: "recorderInv s1" "pendingMic s1 \<noteq> 0"
    unfolding s1_def using startListening_inv[OF initial_recorderInv initial_idle]
    by (simp_all add: startListening_facts)
  have i2: "recorderInv s2" "isRecording s2"
    unfolding s2_def using startListeningResumed_inv[OF i1(1)] startListeningResumed_facts(2)[OF i1(2)]
    by simp_all
  from i2 have p2: "pendingMic s2 = 0" by (simp add: recorderInv_def)
  from stopListening_inv[OF i2(1), of sampleWindow s2] i2(2) p2
  have i3: "\<not> isRecording s3" "pendingMic s3 = 0" unfolding s3_def by simp_all
  have i4: "pendingMic s4 \<noteq> 0" unfolding s4_def by (simp add: startListening_facts)
  have i5: "isRecording s5"
    unfolding s5_def using startListeningResumed_facts(2)[OF i4] by simp
  have r: "runCalls sampleWindow [initialState] sampleListening = [initialState, s1, s2, s3, s4, s5]"
    by (simp add: sampleListening_def renderOf_def s1_def[symmetric] s2_def[symmetric]
          s3_def[symmetric] s4_def[symmetric] s5_def[symmetric] del: step.simps)
  have d: "disciplined sampleWindow [initialState] sampleListening"
    using initial_idle i3
    by (simp add: sampleListening_def renderOf_def s1_def[symmetric] s2_def[symmetric]
          s3_def[symmetric] s4_def[symmetric] s5_def[symmetric] del: step.simps)
  show ?thesis using d i5 by (simp add: r)
qed

theorem disciplined_one_recording_witness:
  "disciplined sampleWindow [initialState] sampleListening \<and>
   last (runCalls sampleWindow [initialState] sampleListening) \<in>
     set (runCalls sampleWindow [initialState] sampleListening) \<and>
   recordingCount (last (runCalls sampleWindow [initialState] sampleListening)) = 1"
proof -
  have d: "disciplined sampleWindow [initialState] sampleListening"
    using sampleListening_facts by simp
  have m: "last (runCalls sampleWindow [initialState] sampleListening) \<in>
     set (runCalls sampleWindow [initialState] sampleListening)"
    by (rule last_in_set) (simp add: runCalls_nonempty)
  show ?thesis
    using disciplined_one_recording[OF d refl m] sampleListening_facts m by simp
qed

lemma initial_count: "recordingCount initialState = 0"
  by (simp add: initialState_def recordingCount_def)

text \<open>
  C4 as stated fails: \<open>startListening\<close> called again while the first recording is in
  flight starts a second recorder, and two recorders are recording.
\<close>

theorem two_recordings_in_flight:
  "recordingCount (run sampleWindow initialState
     [StartListening, MicrophoneSettles True, StartListening, MicrophoneSettles True]) = 2"
  by (simp add: startListeningResumed_facts startListening_facts initial_count)

section \<open>The session: result, status and responses\<close>

lemma startInterview_session:
  "currentSession (snd (startInterview storageOk reply now stamp sid info jd st)) =
     Some (fst (startInterview storageOk reply now stamp sid info jd st)) \<and>
   status (fst (startInterview storageOk reply now stamp sid info jd st)) = InProgress \<and>
   result (fst (startInterview storageOk reply now stamp sid info jd st)) = None \<and>
   responses (fst (startInterview storageOk reply now stamp sid info jd st)) = [] \<and>
   fst (startInterview storageOk reply now stamp sid info jd st) =
     fst (startInterview storageOk reply now stamp sid info jd st0)"
  by (simp add: startInterview_def Let_def)

lemma speak_session: "currentSession (speak w t st) = currentSession st"
  by (simp add: speak_def)

lemma stopInterview_session:
  assumes "currentSession snap = Some cur"
  shows "fst (stopInterview w now stamp snap st) =
           currentSession (snd (stopInterview w now stamp snap st)) \<and>
         currentSession (snd (stopInterview w now stamp snap st)) =
           Some (cur\<lparr> status := Stopped, s_duration := (now - interviewStartTime snap) div 1000,
                       completedAt := Some stamp \<rparr>)"
  using assms by (simp add: stopInterview_def Let_def speak_session)

lemma completeInterview_none:
  assumes "currentSession snap = None \<or> sessionResponses snap = []"
  shows "completeInterview w now stamp r1 r2 snap st = (None, st)"
  using assms by (auto simp: completeInterview_def sessionResponses_def split: option.splits)

lemma completeInterview_session:
  assumes "currentSession snap = Some cur" and "responses cur \<noteq> []"
  shows "fst (completeInterview w now stamp r1 r2 snap st) =
           Some (buildResult ((now - interviewStartTime snap) div 1000) r1 r2 cur) \<and>
         currentSession (snd (completeInterview w now stamp r1 r2 snap st)) =
           Some (cur\<lparr> result := Some (buildResult ((now - interviewStartTime snap) div 1000) r1 r2 cur),
                       status := Completed, s_duration := (now - interviewStartTime snap) div 1000,
                       completedAt := Some stamp \<rparr>)"
  using assms by (simp add: completeInterview_def Let_def speak_session)

lemma submitResponse_session:
  assumes "currentSession snap = Some cur"
  shows "step w snap st (SubmitResponse rx r1 r2 r3 qid ans dur blob) = st \<or>
         (\<exists>resp. currentSession (step w snap st (SubmitResponse rx r1 r2 r3 qid ans dur blob)) =
                   Some (cur\<lparr> responses := responses cur @ [resp] \<rparr>))"
  using assms by (auto simp: submitResponse_def split: sum.splits)

lemma other_session:
  assumes "x = NextQuestion \<or> (\<exists>t. x = Speak t) \<or> x = UtteranceEnd \<or> x = StartListening \<or>
           (\<exists>b. x = MicrophoneSettles b) \<or> x = StopListening \<or> (\<exists>t. x = RecognitionResult t) \<or>
           x = RecorderStopped"
  shows "currentSession (step w snap st x) = currentSession st"
proof -
  have "currentSession (snd (nextQuestion snap st)) = currentSession st"
    by (simp add: nextQuestion_def split: option.splits)
  moreover have "currentSession (startListeningResumed w b st) = currentSession st" for b
    by (simp add: startListeningResumed_def Let_def)
  moreover have "currentSession (case stopListening snap st of Inl e \<Rightarrow> st | Inr st' \<Rightarrow> st') =
                 currentSession st"
    by (simp add: stopListening_def split: option.splits)
  ultimately show ?thesis using assms
    by (auto simp: speak_def utteranceEnd_def recognitionResult_def recorderStopped_def
          startListening_def)
qed

text \<open>
  What a step that keeps the session can do to it: leave it in place, or put in its place
  a session made from the one of the render whose callback is called.
\<close>

lemma step_session:
  assumes "keepsSession x"
  shows "currentSession (step w snap st x) = currentSession st \<or>
         (\<exists>cur cur'. currentSession snap = Some cur \<and> currentSession (step w snap st x) = Some cur' \<and>
            (((\<exists>rx r1 r2 r3 qid ans dur blob. x = SubmitResponse rx r1 r2 r3 qid ans dur blob) \<and>
              (\<exists>resp. responses cur' = responses cur @ [resp]) \<and>
              result cur' = result cur \<and> status cur' = status cur) \<or>
             ((\<exists>n s. x = StopInterview n s) \<and>
              responses cur' = responses cur \<and> result cur' = result cur \<and> status cur' = Stopped) \<or>
             (completes x \<and>
              responses cur' = responses cur \<and> result cur' \<noteq> None \<and> status cur' = Completed)))"
proof (cases x)
  case (StartInterview a b c d e f g)
  with assms show ?thesis by simp
next
  case (SubmitResponse rx r1 r2 r3 qid ans dur blob)
  show ?thesis
  proof (cases "currentSession snap")
    case None
    then show ?thesis unfolding SubmitResponse by (simp add: submitResponse_def)
  next
    case (Some cur)
    from submitResponse_session[OF Some, of w st rx r1 r2 r3 qid ans dur blob] Some show ?thesis
      unfolding SubmitResponse by auto
  qed
next
  case (StopInterview now stamp)
  show ?thesis
  proof (cases "currentSession snap")
    case None
    then show ?thesis unfolding StopInterview by (simp add: stopInterview_def)
  next
    case (Some cur)
    from stopInterview_session[OF Some, of w now stamp st] Some show ?thesis
      unfolding StopInterview by simp
  qed
next
  case (CompleteInterview now stamp r1 r2)
  show ?thesis
  proof (cases "currentSession snap = None \<or> sessionResponses snap = []")
    case True
    from completeInterview_none[OF True] show ?thesis unfolding CompleteInterview by simp
  next
    case False
    then obtain cur where c: "currentSession snap = Some cur" and r: "responses cur \<noteq> []"
      by (auto simp: sessionResponses_def)
    from completeInterview_session[OF c r, of w now stamp r1 r2 st] c show ?thesis
      unfolding CompleteInterview by simp
  qed
next
  case NextQuestion
  with other_session[of x w snap st] show ?thesis by simp
next
  case (Speak t)
  with other_session[of x w snap st] show ?thesis by simp
next
  case UtteranceEnd
  with other_session[of x w snap st] show ?thesis by simp
next
  case StartListening
  with other_session[of x w snap st] show ?thesis by simp
next
  case (MicrophoneSettles b)
  with other_session[of x w snap st] show ?thesis by simp
next
  case StopListening
  with other_session[of x w snap st] show ?thesis by simp
next
  case (RecognitionResult t)
  with other_session[of x w snap st] show ?thesis by simp
next
  case RecorderStopped
  with other_session[of x w snap st] show ?thesis by simp
qed

lemma resultInv_session:
  "currentSession st' = currentSession st \<Longrightarrow> resultInv st' = resultInv st"
  by (simp add: resultInv_def)

lemma step_resultInv:
  assumes "resultInv st" and "resultInv snap"
  shows "resultInv (step w snap st x)"
proof (cases "keepsSession x")
  case False
  then obtain a b c d e f g where x: "x = StartInterview a b c d e f g" by (cases x) simp_all
  show ?thesis unfolding x using startInterview_session[of a b c d e f g st st]
    by (simp add: resultInv_def)
next
  case True
  from step_session[OF True, of w snap st] show ?thesis
  proof
    assume "currentSession (step w snap st x) = currentSession st"
    from resultInv_session[OF this] assms(1) show ?thesis by simp
  next
    assume "\<exists>cur cur'. currentSession snap = Some cur \<and> currentSession (step w snap st x) = Some cur' \<and>
            (((\<exists>rx r1 r2 r3 qid ans dur blob. x = SubmitResponse rx r1 r2 r3 qid ans dur blob) \<and>
              (\<exists>resp. responses cur' = responses cur @ [resp]) \<and>
              result cur' = result cur \<and> status cur' = status cur) \<or>
             ((\<exists>n s. x = StopInterview n s) \<and>
              responses cur' = responses cur \<and> result cur' = result cur \<and> status cur' = Stopped) \<or>
             (completes x \<and>
              responses cur' = responses cur \<and> result cur' \<noteq> None \<and> status cur' = Completed))"
    then obtain cur cur' where c: "currentSession snap = Some cur"
      and c': "currentSession (step w snap st x) = Some cur'"
      and k: "(result cur' = result cur \<and> status cur' = status cur) \<or> status cur' = Stopped \<or>
              (result cur' \<noteq> None \<and> status cur' = Completed)"
      by blast
    from assms(2) c have i: "status cur = Completed \<longrightarrow> result cur \<noteq> None"
      "status cur = InProgress \<longrightarrow> result cur = None" by (simp_all add: resultInv_def)
    from k i show ?thesis unfolding resultInv_def c' by auto
  qed
qed

lemma runCalls_resultInv:
  assumes "\<forall>s \<in> set hist. resultInv s" and "hist \<noteq> []"
  shows "\<forall>s \<in> set (runCalls w hist cs). resultInv s"
  using assms
proof (induction cs arbitrary: hist)
  case Nil
  then show ?case by simp
next
  case (Cons c cs)
  obtain k x where c: "c = (k, x)" by (cases c)
  let ?s = "step w (renderOf hist k) (last hist) x"
  from Cons.prems have l: "resultInv (last hist)" by simp
  from Cons.prems renderOf_mem[OF Cons.prems(2), of k] have r: "resultInv (renderOf hist k)" by blast
  have "resultInv ?s" by (rule step_resultInv[OF l r])
  with Cons.prems(1) have a: "\<forall>s \<in> set (hist @ [?s]). resultInv s" by simp
  from Cons.IH[OF a] show ?case unfolding c by simp
qed

lemma initial_resultInv: "resultInv initialState"
  by (simp add: resultInv_def initialState_def)

lemma step_result:
  assumes "keepsSession x"
  shows "sessionResult (step w snap st x) = sessionResult st \<or>
         (\<not> completes x \<and> sessionResult (step w snap st x) = sessionResult snap) \<or>
         (completes x \<and> sessionStatus (step w snap st x) = Some Completed \<and>
          sessionResult (step w snap st x) \<noteq> None)"
  using step_session[OF assms, of w snap st]
  by (auto simp: sessionResult_def sessionStatus_def)

lemma complete_result:
  "sessionResult (step w snap st (CompleteInterview now stamp r1 r2)) = sessionResult st \<or>
   (sessionStatus (step w snap st (CompleteInterview now stamp r1 r2)) = Some Completed \<and>
    sessionResult (step w snap st (CompleteInterview now stamp r1 r2)) \<noteq> None \<and>
    sessionResult (step w snap st (CompleteInterview now stamp r1 r2)) =
      fst (completeInterview w now stamp r1 r2 snap st))"
proof (cases "currentSession snap = None \<or> sessionResponses snap = []")
  case True
  then show ?thesis by (simp add: completeInterview_none)
next
  case False
  then obtain cur where c: "currentSession snap = Some cur" and r: "responses cur \<noteq> []"
    by (auto simp: sessionResponses_def)
  from completeInterview_session[OF c r, of w now stamp r1 r2 st] show ?thesis
    by (simp add: sessionResult_def sessionStatus_def)
qed

text \<open>
  C1, as amended. In every state of a run from the initial state, through the callbacks of
  any renders, a session whose status is completed has a result and a session in progress
  has none. Through the callback of the latest render, a call that keeps the session and is
  not \<open>completeInterview\<close> leaves the result as it is; through the callback of another
  render it leaves the result as it is or puts back the result that render had.
  \<open>completeInterview\<close> either leaves the result as it is or stores the result it
  returns, which is not null, together with the status completed; \<open>startInterview\<close>
  installs a session in progress with no result. Nothing keeps \<open>completeInterview\<close>
  from being called again, and it then stores a new result.
\<close>

theorem result_written_at_completion:
  assumes "hist = runCalls w [initialState] calls" and "st \<in> set hist"
  shows "(sessionStatus st = Some Completed \<longrightarrow> sessionResult st \<noteq> None) \<and>
         (sessionStatus st = Some InProgress \<longrightarrow> sessionResult st = None) \<and>
         (keepsSession x \<and> \<not> completes x \<longrightarrow> sessionResult (step w st st x) = sessionResult st) \<and>
         (keepsSession x \<and> \<not> completes x \<longrightarrow>
            sessionResult (step w snap st x) = sessionResult st \<or>
            sessionResult (step w snap st x) = sessionResult snap) \<and>
         (sessionResult (step w snap st (CompleteInterview now stamp r1 r2)) = sessionResult st \<or>
          (sessionStatus (step w snap st (CompleteInterview now stamp r1 r2)) = Some Completed \<and>
           sessionResult (step w snap st (CompleteInterview now stamp r1 r2)) \<noteq> None \<and>
           sessionResult (step w snap st (CompleteInterview now stamp r1 r2)) =
             fst (completeInterview w now stamp r1 r2 snap st))) \<and>
         sessionResult (step w snap st (StartInterview storageOk reply now stamp sid info jd)) = None \<and>
         sessionStatus (step w snap st (StartInterview storageOk reply now stamp sid info jd)) =
           Some InProgress"
proof -
  have "\<forall>s \<in> set [initialState]. resultInv s" by (simp add: initial_resultInv)
  from runCalls_resultInv[OF this, of w calls] assms have "resultInv st" by simp
  then have 1: "sessionStatus st = Some Completed \<longrightarrow> sessionResult st \<noteq> None"
    and 2: "sessionStatus st = Some InProgress \<longrightarrow> sessionResult st = None"
    by (auto simp: resultInv_def sessionStatus_def sessionResult_def split: option.splits)
  have 3: "keepsSession x \<and> \<not> completes x \<longrightarrow> sessionResult (step w st st x) = sessionResult st"
    using step_result[of x w st st] by blast
  have 4: "keepsSession x \<and> \<not> completes x \<longrightarrow>
            sessionResult (step w snap st x) = sessionResult st \<or>
            sessionResult (step w snap st x) = sessionResult snap"
    using step_result[of x w snap st] by blast
  have 5: "sessionResult (step w snap st (StartInterview storageOk reply now stamp sid info jd)) = None \<and>
         sessionStatus (step w snap st (StartInterview storageOk reply now stamp sid info jd)) =
           Some InProgress"
    using startInterview_session[of storageOk reply now stamp sid info jd st st]
    by (simp add: sessionResult_def sessionStatus_def)
  show ?thesis using 1 2 3 4 5 complete_result[of w snap st now stamp r1 r2] by blast
qed

lemma started_facts:
  "interviewStartTime (startedState jd) = 1000" "sessionResult (startedState jd) = None"
  "sessionStatus (startedState jd) = Some InProgress"
  by (simp_all add: startedState_def startInterview_def Let_def sessionResult_def sessionStatus_def)

lemma initial_result: "sessionResult initialState = None"
  by (simp add: sessionResult_def initialState_def)

lemma step_sampleStart: "step sampleWindow snap initialState sampleStart = startedState sampleJob"
  by (simp add: sampleStart_def startedState_def)

lemma answered_facts:
  "\<exists>cur. currentSession answeredState = Some cur \<and> responses cur \<noteq> [] \<and> result cur = None \<and>
         status cur = InProgress \<and> requirements (jobDescription cur) = Some ''Python, SQL''"
  "interviewStartTime answeredState = 1000"
proof -
  obtain c where c: "currentSession (startedState sampleJob) = Some c"
    using sample_current by blast
  from submitResponse_Inr[OF c sample_submit_Inr] obtain resp where
    s: "projr (submitResponse sampleRegExp (1/2) (1/4) (3/4) ''fallback-0'' sampleAnswer 45 None
         (startedState sampleJob) (startedState sampleJob)) =
        (startedState sampleJob)\<lparr> currentSession := Some (c\<lparr> responses := responses c @ [resp] \<rparr>) \<rparr>"
    by blast
  have a: "answeredState =
        (startedState sampleJob)\<lparr> currentSession := Some (c\<lparr> responses := responses c @ [resp] \<rparr>) \<rparr>"
    unfolding answeredState_def
    using sample_submit_Inr s by (simp add: step_sampleStart sampleSubmit_def)
  from started_facts(2,3)[of sampleJob] c have "result c = None" "status c = InProgress"
    by (simp_all add: sessionResult_def sessionStatus_def)
  moreover from sample_requirements c have "requirements (jobDescription c) = Some ''Python, SQL''"
    by simp
  ultimately show "\<exists>cur. currentSession answeredState = Some cur \<and> responses cur \<noteq> [] \<and>
         result cur = None \<and> status cur = InProgress \<and>
         requirements (jobDescription cur) = Some ''Python, SQL''"
    by (simp add: a)
  show "interviewStartTime answeredState = 1000" by (simp add: a started_facts)
qed

lemma completeInterview_startTime:
  "interviewStartTime (snd (completeInterview w now stamp r1 r2 snap st)) = interviewStartTime st"
  by (simp add: completeInterview_def Let_def speak_def split: option.splits)

lemma buildResult_duration: "interviewDuration (buildResult d r1 r2 cur) = d"
  by (simp add: buildResult_def Let_def)

lemma completed_facts:
  "\<exists>cur. currentSession completedState = Some cur \<and> responses cur \<noteq> [] \<and> status cur = Completed \<and>
         result cur = Some (buildResult 60 (1/2) (1/2) (the (currentSession answeredState)))"
  "interviewStartTime completedState = 1000"
proof -
  from answered_facts(1) obtain c where c: "currentSession answeredState = Some c"
    and r: "responses c \<noteq> []" by blast
  from completeInterview_session[OF c r, of sampleWindow 61000 "''2024-05-01T10:01:00.000Z''" "1/2" "1/2"
      answeredState]
  show "\<exists>cur. currentSession completedState = Some cur \<and> responses cur \<noteq> [] \<and> status cur = Completed \<and>
         result cur = Some (buildResult 60 (1/2) (1/2) (the (currentSession answeredState)))"
    using r c by (simp add: completedState_def sampleComplete_def answered_facts(2))
  show "interviewStartTime completedState = 1000"
    by (simp add: completedState_def sampleComplete_def completeInterview_startTime answered_facts(2))
qed

lemma step_answered:
  "step sampleWindow (startedState sampleJob) (startedState sampleJob) sampleSubmit = answeredState"
  by (simp add: answeredState_def step_sampleStart del: step.simps)

lemma sampleInterview_run:
  "runCalls sampleWindow [initialState] sampleInterview =
     [initialState, startedState sampleJob, answeredState, completedState]"
  by (simp add: sampleInterview_def renderOf_def step_sampleStart step_answered
        completedState_def[symmetric] del: step.simps)

theorem result_written_at_completion_witness:
  "completedState \<in> set (runCalls sampleWindow [initialState] sampleInterview) \<and>
   sessionStatus completedState = Some Completed \<and> sessionResult completedState \<noteq> None"
proof -
  have m: "completedState \<in> set (runCalls sampleWindow [initialState] sampleInterview)"
    by (simp add: sampleInterview_run)
  have s: "sessionStatus completedState = Some Completed"
    using completed_facts(1) by (auto simp: sessionStatus_def)
  show ?thesis
    using result_written_at_completion[OF refl m] s m by simp
qed

text \<open>
  C1 as stated fails: in one session, a second call of \<open>completeInterview\<close> changes the
  result again, so the run below, each call through the callback of the latest render,
  changes the result field twice.
\<close>

theorem result_assigned_twice:
  "resultAssignments sampleWindow initialState
     [sampleStart, sampleSubmit,
      CompleteInterview 61000 ''2024-05-01T10:01:00.000Z'' (1/2) (1/2),
      CompleteInterview 75000 ''2024-05-01T10:01:14.000Z'' (1/2) (1/2)] = 2"
proof -
  have b: "step sampleWindow answeredState answeredState
             (CompleteInterview 61000 ''2024-05-01T10:01:00.000Z'' (1/2) (1/2)) = completedState"
    by (simp add: completedState_def sampleComplete_def)
  have r1: "sessionResult answeredState = None"
    using answered_facts(1) by (auto simp: sessionResult_def)
  from completed_facts(1) obtain c where c: "currentSession completedState = Some c"
    and n: "responses c \<noteq> []"
    and r2: "result c = Some (buildResult 60 (1/2) (1/2) (the (currentSession answeredState)))"
    by blast
  have r3: "sessionResult (step sampleWindow completedState completedState
              (CompleteInterview 75000 ''2024-05-01T10:01:14.000Z'' (1/2) (1/2))) =
            Some (buildResult 74 (1/2) (1/2) c)"
    using completeInterview_session[OF c n, of sampleWindow 75000 "''2024-05-01T10:01:14.000Z''" "1/2" "1/2"
        completedState]
    by (simp add: sessionResult_def completed_facts(2))
  have d: "buildResult 74 (1/2) (1/2) c \<noteq> buildResult 60 (1/2) (1/2) (the (currentSession answeredState))"
  proof
    assume "buildResult 74 (1/2) (1/2) c = buildResult 60 (1/2) (1/2) (the (currentSession answeredState))"
    then have "interviewDuration (buildResult 74 (1/2) (1/2) c) =
               interviewDuration (buildResult 60 (1/2) (1/2) (the (currentSession answeredState)))"
      by simp
    then show False by (simp add: buildResult_duration)
  qed
  have r2': "sessionResult completedState =
             Some (buildResult 60 (1/2) (1/2) (the (currentSession answeredState)))"
    using c r2 by (simp add: sessionResult_def)
  show ?thesis
    using d
    by (simp add: step_sampleStart step_answered b initial_result started_facts r1 r2' r3
          del: step.simps)
qed

lemma step_status:
  assumes "keepsSession x"
  shows "sessionStatus (step w snap st x) = sessionStatus st \<or>
         ((\<exists>rx r1 r2 r3 qid ans dur blob. x = SubmitResponse rx r1 r2 r3 qid ans dur blob) \<and>
            sessionStatus snap \<noteq> None \<and> sessionStatus (step w snap st x) = sessionStatus snap) \<or>
         ((\<exists>n s. x = StopInterview n s) \<and> sessionStatus snap \<noteq> None \<and>
            sessionStatus (step w snap st x) = Some Stopped) \<or>
         (completes x \<and> sessionStatus snap \<noteq> None \<and> sessionStatus (step w snap st x) = Some Completed)"
  using step_session[OF assms, of w snap st]
  by (auto simp: sessionStatus_def)

lemma makeResponse_sample:
  assumes "requirements jd = Some ''Python, SQL''"
  shows "\<exists>resp. makeResponse sampleRegExp r1 r2 r3 jd qid a dur blob = Inr resp"
  using assms
  by (simp add: makeResponse_def Let_def sample_pattern sampleRegExp_def sublist_code)

text \<open>
  C2, as amended. The hook starts without a session; \<open>startInterview\<close> creates a session,
  the same whatever the state was before, with status in progress and makes it the current
  one; \<open>stopInterview\<close> through the callback of a render that had a session leaves the
  current session stopped; \<open>completeInterview\<close> leaves the status as it is or makes it
  completed. A call that keeps the session changes the status only by \<open>stopInterview\<close> to
  stopped, by \<open>completeInterview\<close> to completed, or by \<open>submitResponse\<close> to the status
  of the render whose callback is called. So a session that is not in progress is not in
  progress after a call through the callback of the latest render, nor after a call through
  the callback of a render whose session was not in progress.
\<close>

theorem status_lifecycle:
  "sessionStatus initialState = None \<and>
   status (fst (startInterview storageOk reply now stamp sid info jd st)) = InProgress \<and>
   currentSession (snd (startInterview storageOk reply now stamp sid info jd st)) =
     Some (fst (startInterview storageOk reply now stamp sid info jd st)) \<and>
   fst (startInterview storageOk reply now stamp sid info jd st) =
     fst (startInterview storageOk reply now stamp sid info jd initialState) \<and>
   (sessionStatus snap \<noteq> None \<longrightarrow>
      sessionStatus (snd (stopInterview w now stamp snap st)) = Some Stopped) \<and>
   (sessionStatus (snd (completeInterview w now stamp r1 r2 snap st)) = sessionStatus st \<or>
    sessionStatus (snd (completeInterview w now stamp r1 r2 snap st)) = Some Completed) \<and>
   (keepsSession x \<longrightarrow>
      sessionStatus (step w snap st x) = sessionStatus st \<or>
      ((\<exists>rx r1 r2 r3 qid ans dur blob. x = SubmitResponse rx r1 r2 r3 qid ans dur blob) \<and>
         sessionStatus snap \<noteq> None \<and> sessionStatus (step w snap st x) = sessionStatus snap) \<or>
      ((\<exists>n s. x = StopInterview n s) \<and> sessionStatus snap \<noteq> None \<and>
         sessionStatus (step w snap st x) = Some Stopped) \<or>
      (completes x \<and> sessionStatus snap \<noteq> None \<and>
         sessionStatus (step w snap st x) = Some Completed)) \<and>
   (keepsSession x \<and> sessionStatus st \<noteq> Some InProgress \<longrightarrow>
      sessionStatus (step w st st x) \<noteq> Some InProgress) \<and>
   (keepsSession x \<and> sessionStatus st \<noteq> Some InProgress \<and> sessionStatus snap \<noteq> Some InProgress \<longrightarrow>
      sessionStatus (step w snap st x) \<noteq> Some InProgress)"
proof -
  have 0: "sessionStatus initialState = None" by (simp add: sessionStatus_def initialState_def)
  have 2: "sessionStatus snap \<noteq> None \<longrightarrow>
      sessionStatus (snd (stopInterview w now stamp snap st)) = Some Stopped"
  proof (cases "currentSession snap")
    case None
    then show ?thesis by (simp add: sessionStatus_def)
  next
    case (Some cur)
    from stopInterview_session[OF Some, of w now stamp st] show ?thesis by (simp add: sessionStatus_def)
  qed
  have 3: "sessionStatus (snd (completeInterview w now stamp r1 r2 snap st)) = sessionStatus st \<or>
    sessionStatus (snd (completeInterview w now stamp r1 r2 snap st)) = Some Completed"
    using step_status[of "CompleteInterview now stamp r1 r2" w snap st] by auto
  have 4: "keepsSession x \<longrightarrow>
      sessionStatus (step w snap st x) = sessionStatus st \<or>
      ((\<exists>rx r1 r2 r3 qid ans dur blob. x = SubmitResponse rx r1 r2 r3 qid ans dur blob) \<and>
         sessionStatus snap \<noteq> None \<and> sessionStatus (step w snap st x) = sessionStatus snap) \<or>
      ((\<exists>n s. x = StopInterview n s) \<and> sessionStatus snap \<noteq> None \<and>
         sessionStatus (step w snap st x) = Some Stopped) \<or>
      (completes x \<and> sessionStatus snap \<noteq> None \<and>
         sessionStatus (step w snap st x) = Some Completed)"
    using step_status[of x w snap st] by blast
  have 5: "keepsSession x \<and> sessionStatus st \<noteq> Some InProgress \<longrightarrow>
      sessionStatus (step w st st x) \<noteq> Some InProgress"
    using step_status[of x w st st] by auto
  from 4 have 6: "keepsSession x \<and> sessionStatus st \<noteq> Some InProgress \<and>
      sessionStatus snap \<noteq> Some InProgress \<longrightarrow>
      sessionStatus (step w snap st x) \<noteq> Some InProgress" by auto
  show ?thesis
    using 0 2 3 4 5 6 startInterview_session[of storageOk reply now stamp sid info jd st initialState]
    by blast
qed

theorem status_lifecycle_witness:
  "sessionStatus (startedState sampleJob) = Some InProgress \<and>
   sessionStatus (snd (stopInterview sampleWindow 61000 ''2024-05-01T10:01:00.000Z''
                         (startedState sampleJob) (startedState sampleJob))) = Some Stopped \<and>
   sessionStatus (step sampleWindow completedState completedState NextQuestion) \<noteq> Some InProgress"
proof -
  have s: "sessionStatus completedState = Some Completed"
    using completed_facts(1) by (auto simp: sessionStatus_def)
  have k: "keepsSession NextQuestion" by simp
  show ?thesis
    using status_lifecycle[where storageOk = True and reply = "NetworkError ''Failed to fetch''"
        and now = 61000 and stamp = "''2024-05-01T10:01:00.000Z''" and sid = "''k3j9x0q1z''"
        and info = sampleStudent and jd = sampleJob and st = "startedState sampleJob"
        and snap = "startedState sampleJob" and w = sampleWindow and ?r1.0 = "1/2" and ?r2.0 = "1/2"
        and x = NextQuestion]
      status_lifecycle[where storageOk = True and reply = "NetworkError ''Failed to fetch''"
        and now = 61000 and stamp = "''2024-05-01T10:01:00.000Z''" and sid = "''k3j9x0q1z''"
        and info = sampleStudent and jd = sampleJob and st = completedState
        and snap = completedState and w = sampleWindow and ?r1.0 = "1/2" and ?r2.0 = "1/2"
        and x = NextQuestion]
      s k started_facts(3)[of sampleJob]
    by simp
qed

text \<open>
  C2 as stated fails: a call of \<open>submitResponse\<close> through the callback of the render
  before the completion writes that render's session back, with the new response, and the
  completed session is in progress again. The statuses along the run:
\<close>

theorem stale_submit_reopens_session:
  "map sessionStatus (runCalls sampleWindow [initialState] sampleLateSubmit) =
     [None, Some InProgress, Some InProgress, Some Completed, Some InProgress]"
proof -
  from answered_facts(1) obtain c where c: "currentSession answeredState = Some c"
    and i: "status c = InProgress" and q: "requirements (jobDescription c) = Some ''Python, SQL''"
    by blast
  from makeResponse_sample[OF q] obtain resp where
    m: "makeResponse sampleRegExp (1/2) (1/4) (3/4) (jobDescription c) ''fallback-0'' sampleAnswer 45 None
          = Inr resp" by blast
  have l: "sessionStatus (step sampleWindow answeredState completedState sampleSubmit) = Some InProgress"
    by (simp add: sampleSubmit_def submitResponse_def c m i sessionStatus_def)
  have a: "sessionStatus answeredState = Some InProgress"
    using c i by (simp add: sessionStatus_def)
  have s: "sessionStatus completedState = Some Completed"
    using completed_facts(1) by (auto simp: sessionStatus_def)
  have n: "sessionStatus initialState = None" by (simp add: sessionStatus_def initialState_def)
  show ?thesis
    using l a s n started_facts(3)[of sampleJob]
    by (simp add: sampleLateSubmit_def renderOf_def step_sampleStart step_answered
          completedState_def[symmetric] del: step.simps)
qed

lemma step_sampleSubmit:
  "step sampleWindow (startedState sampleJob) (startedState sampleJob) sampleSubmit =
     projr (submitResponse sampleRegExp (1/2) (1/4) (3/4) ''fallback-0'' sampleAnswer 45 None
              (startedState sampleJob) (startedState sampleJob))"
  unfolding sampleSubmit_def step.simps by (subst sample_submit_Inr) simp

lemma cpp_pattern: "relevantPattern ''C++, Python'' = ''C++|Python''"
  by (simp add: relevantPattern_def isSep_def isSpace_def)

lemma cpp_requirements:
  "\<exists>cur. currentSession (startedState cppJob) = Some cur \<and>
         requirements (jobDescription cur) = Some ''C++, Python''"
  by (simp add: startedState_def startInterview_def Let_def cppJob_def sampleJob_def)

text \<open>
  C3 fails on the code. When the pattern built from the job requirements does not compile
  in the host's RegExp constructor, every call of \<open>submitResponse\<close> on an existing
  session, through the callback of the latest render or of any other, throws a SyntaxError
  and the state, with its list of responses, stays as it was. For the requirements
  \<open>C++, Python\<close> the pattern is \<open>C++|Python\<close>, which no ECMAScript engine compiles: its
  second \<open>+\<close> has nothing to repeat.
\<close>

theorem submitResponse_throws_on_invalid_pattern:
  assumes "currentSession snap = Some cur"
    and "requirements (jobDescription cur) = Some req" and "req \<noteq> []"
    and "rx (relevantPattern req) ans = None"
  shows "submitResponse rx r1 r2 r3 qid ans dur blob snap st = Inl SyntaxError \<and>
         step w snap st (SubmitResponse rx r1 r2 r3 qid ans dur blob) = st \<and>
         sessionResponses (step w snap st (SubmitResponse rx r1 r2 r3 qid ans dur blob)) =
           sessionResponses st"
proof -
  have m: "makeResponse rx r1 r2 r3 (jobDescription cur) qid ans dur blob = Inl SyntaxError"
    using assms(2-4) by (simp add: makeResponse_def)
  have s: "submitResponse rx r1 r2 r3 qid ans dur blob snap st = Inl SyntaxError"
    by (simp add: submitResponse_def assms(1) m)
  then show ?thesis by simp
qed

lemma sampleRegExp_cpp: "sampleRegExp ''C++|Python'' a = None"
  by (simp add: sampleRegExp_def sublist_code)

theorem submitResponse_throws_on_invalid_pattern_witness:
  "relevantPattern ''C++, Python'' = ''C++|Python'' \<and>
   sampleRegExp ''C++|Python'' sampleAnswer = None \<and>
   submitResponse sampleRegExp (1/2) (1/4) (3/4) ''fallback-0'' sampleAnswer 45 None
     (startedState cppJob) (startedState cppJob) = Inl SyntaxError \<and>
   sessionResponses (step sampleWindow (startedState cppJob) (startedState cppJob)
       (SubmitResponse sampleRegExp (1/2) (1/4) (3/4) ''fallback-0'' sampleAnswer 45 None)) = []"
proof -
  from cpp_requirements obtain cur where c: "currentSession (startedState cppJob) = Some cur"
    and r: "requirements (jobDescription cur) = Some ''C++, Python''" by blast
  have n: "''C++, Python'' \<noteq> []" by simp
  have x: "sampleRegExp (relevantPattern ''C++, Python'') sampleAnswer = None"
    by (simp add: cpp_pattern sampleRegExp_cpp)
  have e: "sessionResponses (startedState cppJob) = []"
    by (simp add: startedState_def startInterview_def Let_def sessionResponses_def)
  show ?thesis
    using submitResponse_throws_on_invalid_pattern[where snap = "startedState cppJob" and cur = cur
        and req = "''C++, Python''" and rx = sampleRegExp and ans = sampleAnswer and ?r1.0 = "1/2"
        and ?r2.0 = "1/4" and ?r3.0 = "3/4" and qid = "''fallback-0''" and dur = 45 and blob = None
        and w = sampleWindow and st = "startedState cppJob", OF c r n x]
      cpp_pattern sampleRegExp_cpp[of sampleAnswer] e
    by simp
qed

text \<open>
  What holds of the responses. Through the callback of the latest render, a call that
  keeps the session leaves the list of responses as it is or, for \<open>submitResponse\<close>,
  appends one response at its end. Through the callback of any render, it leaves the list
  as it is, or puts back the list that render had, for \<open>submitResponse\<close> with one
  response appended; and a call of \<open>submitResponse\<close> that returns, made through the
  callback of a render that had a session, stores that render's list with exactly the
  response built from the answer appended.
\<close>

theorem responses_only_grow:
  "(keepsSession x \<longrightarrow>
      sessionResponses (step w st st x) = sessionResponses st \<or>
      ((\<exists>rx r1 r2 r3 qid ans dur blob. x = SubmitResponse rx r1 r2 r3 qid ans dur blob) \<and>
       (\<exists>resp. sessionResponses (step w st st x) = sessionResponses st @ [resp]))) \<and>
   (keepsSession x \<longrightarrow>
      sessionResponses (step w snap st x) = sessionResponses st \<or>
      sessionResponses (step w snap st x) = sessionResponses snap \<or>
      ((\<exists>rx r1 r2 r3 qid ans dur blob. x = SubmitResponse rx r1 r2 r3 qid ans dur blob) \<and>
       (\<exists>resp. sessionResponses (step w snap st x) = sessionResponses snap @ [resp]))) \<and>
   (currentSession snap \<noteq> None \<and> submitResponse rx r1 r2 r3 qid ans dur blob snap st = Inr st' \<longrightarrow>
      (\<exists>resp. makeResponse rx r1 r2 r3 (jobDescription (the (currentSession snap))) qid ans dur blob =
                Inr resp \<and>
              sessionResponses st' = sessionResponses snap @ [resp]))"
proof -
  have g: "sessionResponses (step w p st x) = sessionResponses st \<or>
      sessionResponses (step w p st x) = sessionResponses p \<or>
      ((\<exists>rx r1 r2 r3 qid ans dur blob. x = SubmitResponse rx r1 r2 r3 qid ans dur blob) \<and>
       (\<exists>resp. sessionResponses (step w p st x) = sessionResponses p @ [resp]))"
    if k: "keepsSession x" for p
    using step_session[OF k, of w p st] by (auto simp: sessionResponses_def)
  have 1: "keepsSession x \<longrightarrow>
      sessionResponses (step w st st x) = sessionResponses st \<or>
      ((\<exists>rx r1 r2 r3 qid ans dur blob. x = SubmitResponse rx r1 r2 r3 qid ans dur blob) \<and>
       (\<exists>resp. sessionResponses (step w st st x) = sessionResponses st @ [resp]))"
    using g[of st] by blast
  have 2: "keepsSession x \<longrightarrow>
      sessionResponses (step w snap st x) = sessionResponses st \<or>
      sessionResponses (step w snap st x) = sessionResponses snap \<or>
      ((\<exists>rx r1 r2 r3 qid ans dur blob. x = SubmitResponse rx r1 r2 r3 qid ans dur blob) \<and>
       (\<exists>resp. sessionResponses (step w snap st x) = sessionResponses snap @ [resp]))"
    using g[of snap] by blast
  have 3: "currentSession snap \<noteq> None \<and> submitResponse rx r1 r2 r3 qid ans dur blob snap st = Inr st' \<longrightarrow>
      (\<exists>resp. makeResponse rx r1 r2 r3 (jobDescription (the (currentSession snap))) qid ans dur blob =
                Inr resp \<and>
              sessionResponses st' = sessionResponses snap @ [resp])"
  proof
    assume a: "currentSession snap \<noteq> None \<and> submitResponse rx r1 r2 r3 qid ans dur blob snap st = Inr st'"
    then obtain cur where c: "currentSession snap = Some cur" by blast
    from submitResponse_Inr[OF c] a obtain resp where
      "makeResponse rx r1 r2 r3 (jobDescription cur) qid ans dur blob = Inr resp"
      "st' = st\<lparr> currentSession := Some (cur\<lparr> responses := responses cur @ [resp] \<rparr>) \<rparr>"
      by blast
    then show "\<exists>resp. makeResponse rx r1 r2 r3 (jobDescription (the (currentSession snap))) qid ans dur blob =
                Inr resp \<and>
              sessionResponses st' = sessionResponses snap @ [resp]"
      using c by (simp add: sessionResponses_def)
  qed
  show ?thesis using 1 2 3 by blast
qed

theorem responses_only_grow_witness:
  "length (sessionResponses answeredState) = 1 \<and>
   sessionResponses (step sampleWindow answeredState answeredState (StopInterview 61000 ''t'')) =
     sessionResponses answeredState"
proof -
  obtain c where c: "currentSession (startedState sampleJob) = Some c"
    using sample_current by blast
  have n: "currentSession (startedState sampleJob) \<noteq> None" using c by simp
  have e: "sessionResponses (startedState sampleJob) = []"
    by (simp add: startedState_def startInterview_def Let_def sessionResponses_def)
  have a: "answeredState = projr (submitResponse sampleRegExp (1/2) (1/4) (3/4) ''fallback-0'' sampleAnswer 45 None
         (startedState sampleJob) (startedState sampleJob))"
    unfolding answeredState_def
    by (simp add: step_sampleStart step_sampleSubmit del: step.simps)
  have k: "keepsSession (StopInterview 61000 ''t'')" by simp
  have g1: "sessionResponses (step sampleWindow answeredState answeredState (StopInterview 61000 ''t'')) =
            sessionResponses answeredState"
    using responses_only_grow[where x = "StopInterview 61000 ''t''" and w = sampleWindow
        and st = answeredState and snap = answeredState] k by auto
  have g2: "\<exists>resp. sessionResponses answeredState = sessionResponses (startedState sampleJob) @ [resp]"
    using responses_only_grow[where x = NextQuestion and w = sampleWindow
        and st = "startedState sampleJob" and snap = "startedState sampleJob"
        and rx = sampleRegExp and ?r1.0 = "1/2" and ?r2.0 = "1/4" and ?r3.0 = "3/4"
        and qid = "''fallback-0''" and ans = sampleAnswer and dur = 45 and blob = None
        and st' = "projr (submitResponse sampleRegExp (1/2) (1/4) (3/4) ''fallback-0'' sampleAnswer 45 None
         (startedState sampleJob) (startedState sampleJob))"] n sample_submit_Inr a by auto
  show ?thesis using g1 g2 e by auto
qed

end
